theory Spec2Isabelle
  imports Complex_Main
begin

section \<open>Numbers and strings of the visualizer\<close>

text \<open>
  The visualizer (\<^verbatim>\<open>src/js/svgVisualizer.js\<close>) computes every coordinate from the
  integer constants of its \<^verbatim>\<open>config\<close> object with \<^verbatim>\<open>+\<close>, \<^verbatim>\<open>-\<close>, \<^verbatim>\<open>*\<close> and
  \<^verbatim>\<open>/\<close>. Coordinates are modelled as exact rationals (\<^typ>\<open>rat\<close>); array lengths and
  indices are natural numbers. A JavaScript string is the list of its code units
  (\<^typ>\<open>string\<close>), so \<^verbatim>\<open>s.length\<close> is \<^term>\<open>length s\<close> and \<^verbatim>\<open>s.substring(0, n)\<close>
  is \<^term>\<open>take n s\<close>.
\<close>

definition digitChar :: "nat \<Rightarrow> char" where
  "digitChar d = ''0123456789'' ! d"

text \<open>Template-literal conversion of a non-negative integer: its decimal digits.\<close>

fun string_of_nat :: "nat \<Rightarrow> string" where
  "string_of_nat n =
     (if n < 10 then [digitChar n] else string_of_nat (n div 10) @ [digitChar (n mod 10)])"

declare string_of_nat.simps [simp del]

text \<open>\<^verbatim>\<open>String.prototype.split(' ')\<close>: cut at every space; an empty string gives one
  empty piece, and neighbouring spaces give empty pieces.\<close>

fun splitSpace :: "string \<Rightarrow> string list" where
  "splitSpace [] = [[]]"
| "splitSpace (c # cs) =
     (if c = CHR '' '' then [] # splitSpace cs
      else (case splitSpace cs of [] \<Rightarrow> [[c]] | w # ws \<Rightarrow> (c # w) # ws))"

text \<open>\<^verbatim>\<open>String.prototype.trim\<close> and \<^verbatim>\<open>toLowerCase\<close> on code units below 256: the
  white space characters are TAB, LF, VT, FF, CR, SPACE and NBSP; the letters with a
  lower-case form are A-Z and the Latin-1 capitals 192-222 other than 215.\<close>

definition isWhiteSpace :: "char \<Rightarrow> bool" where
  "isWhiteSpace c = ((of_char c :: nat) \<in> {9, 10, 11, 12, 13, 32, 160})"

definition trim :: "string \<Rightarrow> string" where
  "trim s = rev (dropWhile isWhiteSpace (rev (dropWhile isWhiteSpace s)))"

definition toLowerChar :: "char \<Rightarrow> char" where
  "toLowerChar c =
     (let n = (of_char c :: nat)
      in if (65 \<le> n \<and> n \<le> 90) \<or> (192 \<le> n \<and> n \<le> 222 \<and> n \<noteq> 215)
         then char_of (n + 32) else c)"

definition toLowerCase :: "string \<Rightarrow> string" where
  "toLowerCase s = map toLowerChar s"

section \<open>The text fitter inside \<^verbatim>\<open>createNode\<close>\<close>

definition maxCharsPerLine :: nat where
  "maxCharsPerLine = 30"

definition maxLines :: nat where
  "maxLines = 2"

text \<open>\<^verbatim>\<open>text.length > 60 ? text.substring(0, 57) + '...' : text\<close>\<close>

definition truncatedText :: "string \<Rightarrow> string" where
  "truncatedText text = (if length text > 60 then take 57 text @ ''...'' else text)"

text \<open>One round of \<^verbatim>\<open>words.forEach\<close>; the state is \<^verbatim>\<open>(lines, currentLine)\<close>. An
  empty string is falsy, so \<^verbatim>\<open>currentLine ? ' ' : ''\<close> and \<^verbatim>\<open>if (currentLine)\<close> test
  for non-emptiness.\<close>

definition wrapStep :: "string \<Rightarrow> string list \<times> string \<Rightarrow> string list \<times> string" where
  "wrapStep word = (\<lambda>(lines, currentLine).
     if length (currentLine @ word) \<le> maxCharsPerLine
     then (lines, currentLine @ (if currentLine \<noteq> [] then '' '' else []) @ word)
     else (if currentLine \<noteq> [] then lines @ [currentLine] else lines, word))"

definition wrapLines :: "string list \<Rightarrow> string list" where
  "wrapLines words =
     (case fold wrapStep words ([], []) of
        (lines, currentLine) \<Rightarrow> if currentLine \<noteq> [] then lines @ [currentLine] else lines)"

definition textLines :: "string \<Rightarrow> string list" where
  "textLines text = wrapLines (splitSpace (truncatedText text))"

text \<open>\<^verbatim>\<open>lines.slice(0, maxLines)\<close>\<close>

definition displayLines :: "string \<Rightarrow> string list" where
  "displayLines text = take maxLines (textLines text)"

text \<open>The \<^verbatim>\<open>textContent\<close> of the i-th line element.\<close>

definition lineContent :: "string list \<Rightarrow> nat \<Rightarrow> string \<Rightarrow> string" where
  "lineContent lines i line =
     line @ (if i = maxLines - 1 \<and> length lines > maxLines then ''...'' else [])"

section \<open>Nodes and connections\<close>

text \<open>The constants of \<^verbatim>\<open>config\<close>.\<close>

definition config_width :: rat where "config_width = 1200"
definition levelHeight :: rat where "levelHeight = 180"
definition itemWidth :: rat where "itemWidth = 200"
definition itemHeight :: rat where "itemHeight = 80"
definition horizontalGap :: rat where "horizontalGap = 40"
definition padding :: rat where "padding = 20"
definition color_impact :: string where "color_impact = ''#1976d2''"
definition color_outcome :: string where "color_outcome = ''#388e3c''"
definition color_output :: string where "color_output = ''#f57c00''"
definition color_connection :: string where "color_connection = ''#999''"

lemmas config_defs = config_width_def levelHeight_def itemWidth_def itemHeight_def
  horizontalGap_def padding_def

text \<open>
  \<^verbatim>\<open>createNode\<close> builds a \<^verbatim>\<open><g>\<close> element. The record keeps the geometry and
  content of its children: the rectangle with its tooltip \<^verbatim>\<open><title>\<close>, the type label,
  one text element per display line and the optional indicator badge. Attributes that are
  the same constant on every node (font sizes, text fill, opacity, corner radius) are left
  out.
\<close>

record text_el =
  text_x :: rat
  text_y :: rat
  text_content :: string

record badge =
  badge_cx :: rat
  badge_cy :: rat
  badge_text :: string
  badge_title :: string

record node =
  rect_x :: rat
  rect_y :: rat
  rect_width :: rat
  rect_height :: rat
  rect_fill :: string
  rect_stroke :: string
  rect_stroke_width :: nat
  rect_title :: string
  node_label :: text_el
  node_lines :: "text_el list"
  node_badge :: "badge option"

text \<open>The badge block, entered when \<^verbatim>\<open>indicatorCount > 0\<close>.\<close>

definition indicatorBadge :: "rat \<Rightarrow> rat \<Rightarrow> rat \<Rightarrow> nat \<Rightarrow> badge option" where
  "indicatorBadge x y width indicatorCount =
     (if indicatorCount > 0
      then Some \<lparr>badge_cx = x + width - 15, badge_cy = y + 5,
                 badge_text = string_of_nat indicatorCount,
                 badge_title = string_of_nat indicatorCount @ '' indicator''
                                 @ (if indicatorCount > 1 then ''s'' else [])\<rparr>
      else None)"

definition createNode ::
  "rat \<Rightarrow> rat \<Rightarrow> rat \<Rightarrow> rat \<Rightarrow> string \<Rightarrow> string \<Rightarrow> string \<Rightarrow> nat \<Rightarrow> bool \<Rightarrow> node" where
  "createNode x y width height text color label indicatorCount isShared =
     (let lines = textLines text
      in \<lparr>rect_x = x, rect_y = y, rect_width = width, rect_height = height,
          rect_fill = color,
          rect_stroke = (if isShared then ''#d32f2f'' else color),
          rect_stroke_width = (if isShared then 3 else 1),
          rect_title = text,
          node_label = \<lparr>text_x = x + width / 2, text_y = y + 20, text_content = label\<rparr>,
          node_lines = map (\<lambda>(i, line).
              \<lparr>text_x = x + width / 2, text_y = y + 38 + of_nat i * 14,
               text_content = lineContent lines i line\<rparr>)
            (enumerate 0 (take maxLines lines)),
          node_badge = indicatorBadge x y width indicatorCount\<rparr>)"

text \<open>A node drawn as shared carries the red stroke of width 3.\<close>

definition node_isShared :: "node \<Rightarrow> bool" where
  "node_isShared n = (rect_stroke_width n = 3)"

text \<open>
  \<^verbatim>\<open>createConnection\<close>: the path \<^verbatim>\<open>M x1 y1 C x1 midY, x2 midY, x2 y2\<close>, with the
  stroke attributes that depend on \<^verbatim>\<open>isShared\<close>.
\<close>

record connection =
  conn_x1 :: rat
  conn_y1 :: rat
  conn_x2 :: rat
  conn_y2 :: rat
  conn_midY :: rat
  conn_stroke :: string
  conn_stroke_width :: rat
  conn_opacity :: rat
  conn_dasharray :: "string option"

definition createConnection :: "rat \<Rightarrow> rat \<Rightarrow> rat \<Rightarrow> rat \<Rightarrow> string \<Rightarrow> bool \<Rightarrow> connection" where
  "createConnection x1 y1 x2 y2 color isShared =
     \<lparr>conn_x1 = x1, conn_y1 = y1, conn_x2 = x2, conn_y2 = y2,
      conn_midY = (y1 + y2) / 2,
      conn_stroke = color,
      conn_stroke_width = (if isShared then 5 / 2 else 3 / 2),
      conn_opacity = (if isShared then 4 / 5 else 1 / 2),
      conn_dasharray = (if isShared then Some ''5,5'' else None)\<rparr>"

definition conn_isShared :: "connection \<Rightarrow> bool" where
  "conn_isShared c = (conn_dasharray c \<noteq> None)"

section \<open>The data model\<close>

record indicator =
  indicator_id :: string
  indicator_description :: string

record toc_output =
  output_id :: string
  output_statement :: string
  output_indicators :: "indicator list"

record outcome =
  outcome_id :: string
  outcome_statement :: string
  outcome_indicators :: "indicator list"
  outcome_outputs :: "toc_output list"

record impact =
  impact_id :: string
  impact_statement :: string

record snapshot =
  data_impact :: impact
  data_outcomes :: "outcome list"

section \<open>Collecting the unique outputs\<close>

text \<open>
  \<^verbatim>\<open>outputsMap\<close> is a JavaScript \<^verbatim>\<open>Map\<close>, which iterates in insertion order: an
  association list whose new keys go to the end. The value of a key is the object
  \<^verbatim>\<open>{output, outcomeIds}\<close>; the types of the ids and of the output object are
  parameters (the data model has string ids).
\<close>

record ('i, 'o) outputData =
  od_output :: 'o
  od_outcomeIds :: "'i list"

type_synonym ('i, 'o) outputsMap = "(string \<times> ('i, 'o) outputData) list"

definition map_has :: "string \<Rightarrow> ('i, 'o) outputsMap \<Rightarrow> bool" where
  "map_has key m = (key \<in> set (map fst m))"

text \<open>\<^verbatim>\<open>outputsMap.get(key).outcomeIds.push(id)\<close>: the entry of the key is changed
  in place.\<close>

fun pushOutcomeId :: "string \<Rightarrow> 'i \<Rightarrow> ('i, 'o) outputsMap \<Rightarrow> ('i, 'o) outputsMap" where
  "pushOutcomeId key oid [] = []"
| "pushOutcomeId key oid ((k, v) # m) =
     (if k = key then (k, v\<lparr>od_outcomeIds := od_outcomeIds v @ [oid]\<rparr>) # m
      else (k, v) # pushOutcomeId key oid m)"

text \<open>The body of the inner \<^verbatim>\<open>forEach\<close>, once the key is computed.\<close>

definition registerOutput ::
  "string \<Rightarrow> 'i \<Rightarrow> 'o \<Rightarrow> ('i, 'o) outputsMap \<Rightarrow> ('i, 'o) outputsMap" where
  "registerOutput key oid out m =
     (if map_has key m then pushOutcomeId key oid m
      else m @ [(key, \<lparr>od_output = out, od_outcomeIds = [oid]\<rparr>)])"

text \<open>\<^verbatim>\<open>output.statement.trim().toLowerCase()\<close>\<close>

definition statementKey :: "string \<Rightarrow> string" where
  "statementKey statement = toLowerCase (trim statement)"

definition collectOutcome ::
  "outcome \<Rightarrow> (string, toc_output) outputsMap \<Rightarrow> (string, toc_output) outputsMap" where
  "collectOutcome oc m =
     fold (\<lambda>out. registerOutput (statementKey (output_statement out)) (outcome_id oc) out)
       (outcome_outputs oc) m"

definition collectOutputs :: "outcome list \<Rightarrow> (string, toc_output) outputsMap" where
  "collectOutputs ocs = fold collectOutcome ocs []"

text \<open>\<^verbatim>\<open>Array.from(outputsMap.values())\<close>\<close>

definition uniqueOutputs :: "outcome list \<Rightarrow> (string, toc_output) outputData list" where
  "uniqueOutputs ocs = map snd (collectOutputs ocs)"

section \<open>Assembling the SVG element\<close>

text \<open>
  The children of the \<^verbatim>\<open><svg>\<close> element, in document order, which is the order in
  which a renderer paints them. \<^verbatim>\<open>Defs\<close> is the constant arrowhead marker.
\<close>

datatype element =
  Title string
| Desc string
| Defs
| Path connection
| Group node

record svg =
  svg_width :: rat
  svg_height :: rat
  svg_children :: "element list"

text \<open>
  \<^verbatim>\<open>svg.insertBefore(new, ref)\<close> for a child \<^verbatim>\<open>ref\<close>. The reference is always the
  group of the impact node, which no later element equals (the other groups carry the
  label \<^verbatim>\<open>Outcome\<close> or \<^verbatim>\<open>Output...\<close>), so the first equal element is the reference
  itself. A \<^verbatim>\<open>null\<close> reference appends; that is the empty case.
\<close>

fun insertBefore :: "element \<Rightarrow> element \<Rightarrow> element list \<Rightarrow> element list" where
  "insertBefore new ref [] = [new]"
| "insertBefore new ref (c # cs) =
     (if c = ref then new # c # cs else c # insertBefore new ref cs)"

text \<open>\<^verbatim>\<open>svg.insertBefore(new, svg.firstChild.nextSibling)\<close>: the new element becomes
  the second child (the last one when there is no second child).\<close>

fun insertBeforeSecond :: "element \<Rightarrow> element list \<Rightarrow> element list" where
  "insertBeforeSecond new [] = [new]"
| "insertBeforeSecond new (c # cs) = c # new # cs"

text \<open>The entries of the \<^verbatim>\<open>outcomeNodes\<close> array: the bottom-centre anchor of an
  outcome box.\<close>

record 'i outcomeNode =
  on_id :: 'i
  on_x :: rat
  on_y :: rat
  on_node :: node

definition totalWidth :: "nat \<Rightarrow> nat \<Rightarrow> rat" where
  "totalWidth n m =
     max config_width
       (of_nat (max (max n m) 1) * (itemWidth + horizontalGap) + padding * 2)"

definition totalHeight :: rat where
  "totalHeight = levelHeight * 3 + padding * 2"

definition impactX :: "rat \<Rightarrow> rat" where
  "impactX tw = tw / 2"

definition impactY :: rat where
  "impactY = padding + itemHeight / 2"

definition impactNode :: "rat \<Rightarrow> string \<Rightarrow> node" where
  "impactNode tw statement =
     createNode (impactX tw - itemWidth / 2) padding (itemWidth * (3 / 2)) itemHeight
       statement color_impact ''Impact'' 0 False"

definition descText :: "nat \<Rightarrow> nat \<Rightarrow> string" where
  "descText n m =
     ''Visualization showing '' @ string_of_nat n
       @ '' outcomes supporting the impact statement, with '' @ string_of_nat m
       @ '' unique outputs.''"

definition titleText :: string where
  "titleText =
     ''Theory of Change showing impact, outcomes, and outputs with their relationships''"

definition outcomeX :: "rat \<Rightarrow> nat \<Rightarrow> rat" where
  "outcomeX outcomeSpacing index = outcomeSpacing * of_nat (index + 1) - itemWidth / 2"

definition outcomesY :: rat where
  "outcomesY = padding + levelHeight"

definition outcomeBox :: "rat \<Rightarrow> nat \<Rightarrow> string \<Rightarrow> nat \<Rightarrow> node" where
  "outcomeBox outcomeSpacing index statement indicatorCount =
     createNode (outcomeX outcomeSpacing index) outcomesY itemWidth itemHeight statement
       color_outcome ''Outcome'' indicatorCount False"

definition impactConnection :: "rat \<Rightarrow> rat \<Rightarrow> nat \<Rightarrow> connection" where
  "impactConnection tw outcomeSpacing index =
     createConnection (impactX tw) (impactY + itemHeight / 2)
       (outcomeX outcomeSpacing index + itemWidth / 2) outcomesY color_connection False"

definition outcomeAnchor :: "rat \<Rightarrow> nat \<Rightarrow> 'i \<Rightarrow> string \<Rightarrow> nat \<Rightarrow> 'i outcomeNode" where
  "outcomeAnchor outcomeSpacing index oid statement indicatorCount =
     \<lparr>on_id = oid, on_x = outcomeX outcomeSpacing index + itemWidth / 2,
      on_y = outcomesY + itemHeight,
      on_node = outcomeBox outcomeSpacing index statement indicatorCount\<rparr>"

text \<open>One round of the loop over \<^verbatim>\<open>data.outcomes\<close>, on the values it reads from the
  outcome; the state is the child list and the \<^verbatim>\<open>outcomeNodes\<close> array. The node group
  is appended, the anchor is pushed, and the connection from the impact box is inserted
  before the impact group.\<close>

definition outcomeStep ::
  "rat \<Rightarrow> rat \<Rightarrow> element \<Rightarrow> nat \<Rightarrow> 'i \<Rightarrow> string \<Rightarrow> nat
    \<Rightarrow> element list \<times> 'i outcomeNode list \<Rightarrow> element list \<times> 'i outcomeNode list" where
  "outcomeStep tw outcomeSpacing impactGroup index oid statement indicatorCount =
     (\<lambda>(children, outcomeNodes).
       (insertBefore (Path (impactConnection tw outcomeSpacing index)) impactGroup
          (children @ [Group (outcomeBox outcomeSpacing index statement indicatorCount)]),
        outcomeNodes @ [outcomeAnchor outcomeSpacing index oid statement indicatorCount]))"

text \<open>One round of \<^verbatim>\<open>outputData.outcomeIds.forEach\<close>.\<close>

definition connectOutcome ::
  "'i outcomeNode list \<Rightarrow> rat \<Rightarrow> rat \<Rightarrow> bool \<Rightarrow> 'i \<Rightarrow> element list \<Rightarrow> element list" where
  "connectOutcome outcomeNodes x y isShared outcomeId children =
     (case find (\<lambda>n. on_id n = outcomeId) outcomeNodes of
        None \<Rightarrow> children
      | Some outcomeNode \<Rightarrow>
          insertBeforeSecond
            (Path (createConnection (on_x outcomeNode) (on_y outcomeNode)
                     (x + itemWidth / 2) y color_connection isShared))
            children)"

definition outputLabel :: "'i list \<Rightarrow> string" where
  "outputLabel ids =
     (if length ids > 1
      then ''Output (shared across '' @ string_of_nat (length ids) @ '' outcomes)''
      else ''Output'')"

definition outputX :: "rat \<Rightarrow> nat \<Rightarrow> rat" where
  "outputX outputSpacing index = outputSpacing * of_nat (index + 1) - itemWidth / 2"

definition outputsY :: rat where
  "outputsY = padding + levelHeight * 2"

definition outputNode :: "rat \<Rightarrow> nat \<Rightarrow> string \<Rightarrow> nat \<Rightarrow> 'i list \<Rightarrow> node" where
  "outputNode outputSpacing index statement indicatorCount ids =
     createNode (outputX outputSpacing index) outputsY itemWidth itemHeight statement
       color_output (outputLabel ids) indicatorCount (length ids > 1)"

text \<open>One round of the loop over \<^verbatim>\<open>uniqueOutputs\<close>. The \<^verbatim>\<open>outputNodes\<close> array that
  the source also fills is never read and is left out.\<close>

definition outputStep ::
  "rat \<Rightarrow> 'i outcomeNode list \<Rightarrow> nat \<Rightarrow> string \<Rightarrow> nat \<Rightarrow> 'i list
    \<Rightarrow> element list \<Rightarrow> element list" where
  "outputStep outputSpacing outcomeNodes index statement indicatorCount ids children =
     fold (connectOutcome outcomeNodes (outputX outputSpacing index) outputsY (length ids > 1))
       ids
       (children @ [Group (outputNode outputSpacing index statement indicatorCount ids)])"

definition outcomesLayer ::
  "rat \<Rightarrow> element \<Rightarrow> outcome list \<Rightarrow> element list
    \<Rightarrow> element list \<times> string outcomeNode list" where
  "outcomesLayer tw impactGroup ocs children =
     fold (\<lambda>(index, oc).
         outcomeStep tw (tw / of_nat (length ocs + 1)) impactGroup index (outcome_id oc)
           (outcome_statement oc) (length (outcome_indicators oc)))
       (enumerate 0 ocs) (children, [])"

definition outputsLayer ::
  "rat \<Rightarrow> string outcomeNode list \<Rightarrow> (string, toc_output) outputData list
    \<Rightarrow> element list \<Rightarrow> element list" where
  "outputsLayer tw outcomeNodes uos children =
     fold (\<lambda>(index, outputData).
         outputStep (tw / of_nat (length uos + 1)) outcomeNodes index
           (output_statement (od_output outputData))
           (length (output_indicators (od_output outputData)))
           (od_outcomeIds outputData))
       (enumerate 0 uos) children"

definition generateSVGVisualization :: "snapshot \<Rightarrow> svg" where
  "generateSVGVisualization data =
     (let uos = uniqueOutputs (data_outcomes data);
          tw = totalWidth (length (data_outcomes data)) (length uos);
          impactGroup = Group (impactNode tw (impact_statement (data_impact data)));
          children0 = [Title titleText,
                       Desc (descText (length (data_outcomes data)) (length uos)),
                       Defs, impactGroup];
          (children1, outcomeNodes) = outcomesLayer tw impactGroup (data_outcomes data) children0;
          children2 = outputsLayer tw outcomeNodes uos children1
      in \<lparr>svg_width = tw, svg_height = totalHeight, svg_children = children2\<rparr>)"

section \<open>Observing the scene\<close>

text \<open>The node boxes and the connectors of a child list, each in document order.\<close>

fun nodesOf :: "element list \<Rightarrow> node list" where
  "nodesOf [] = []"
| "nodesOf (Group n # es) = n # nodesOf es"
| "nodesOf (e # es) = nodesOf es"

fun pathsOf :: "element list \<Rightarrow> connection list" where
  "pathsOf [] = []"
| "pathsOf (Path c # es) = c # pathsOf es"
| "pathsOf (e # es) = pathsOf es"

fun isPath :: "element \<Rightarrow> bool" where
  "isPath (Path c) = True"
| "isPath e = False"

fun isGroup :: "element \<Rightarrow> bool" where
  "isGroup (Group n) = True"
| "isGroup e = False"

text \<open>A connector targets a box when it ends at the middle of the box's top edge.\<close>

definition targets :: "connection \<Rightarrow> node \<Rightarrow> bool" where
  "targets c n = (conn_x2 c = rect_x n + rect_width n / 2 \<and> conn_y2 c = rect_y n)"

text \<open>The connections that one round of the loop over \<^verbatim>\<open>uniqueOutputs\<close> inserts, in
  the order of insertion: one for every id that \<^verbatim>\<open>outcomeNodes.find\<close> finds.\<close>

definition outputConnections ::
  "'i outcomeNode list \<Rightarrow> rat \<Rightarrow> nat \<Rightarrow> 'i list \<Rightarrow> connection list" where
  "outputConnections outcomeNodes outputSpacing index ids =
     List.map_filter (\<lambda>outcomeId.
         map_option (\<lambda>outcomeNode.
             createConnection (on_x outcomeNode) (on_y outcomeNode)
               (outputX outputSpacing index + itemWidth / 2) outputsY color_connection
               (length ids > 1))
           (find (\<lambda>n. on_id n = outcomeId) outcomeNodes))
       ids"

text \<open>The contents of the two lower layers, listed per outcome and per unique output in
  array order; the closed form of what the two loops build.\<close>

definition outcomeSpacing :: "rat \<Rightarrow> outcome list \<Rightarrow> rat" where
  "outcomeSpacing tw ocs = tw / of_nat (length ocs + 1)"

definition outputSpacing :: "rat \<Rightarrow> (string, toc_output) outputData list \<Rightarrow> rat" where
  "outputSpacing tw uos = tw / of_nat (length uos + 1)"

definition outcomeBoxes :: "rat \<Rightarrow> outcome list \<Rightarrow> node list" where
  "outcomeBoxes tw ocs =
     map (\<lambda>(i, oc). outcomeBox (outcomeSpacing tw ocs) i (outcome_statement oc)
                       (length (outcome_indicators oc)))
       (enumerate 0 ocs)"

definition outcomeAnchors :: "rat \<Rightarrow> outcome list \<Rightarrow> string outcomeNode list" where
  "outcomeAnchors tw ocs =
     map (\<lambda>(i, oc). outcomeAnchor (outcomeSpacing tw ocs) i (outcome_id oc) (outcome_statement oc)
                       (length (outcome_indicators oc)))
       (enumerate 0 ocs)"

definition impactConnections :: "rat \<Rightarrow> outcome list \<Rightarrow> connection list" where
  "impactConnections tw ocs =
     map (\<lambda>(i, oc). impactConnection tw (outcomeSpacing tw ocs) i) (enumerate 0 ocs)"

definition outputBoxes :: "rat \<Rightarrow> (string, toc_output) outputData list \<Rightarrow> node list" where
  "outputBoxes tw uos =
     map (\<lambda>(i, od). outputNode (outputSpacing tw uos) i (output_statement (od_output od))
                       (length (output_indicators (od_output od))) (od_outcomeIds od))
       (enumerate 0 uos)"

definition sharedConnections ::
  "rat \<Rightarrow> string outcomeNode list \<Rightarrow> (string, toc_output) outputData list
    \<Rightarrow> connection list list" where
  "sharedConnections tw ons uos =
     map (\<lambda>(i, od). outputConnections ons (outputSpacing tw uos) i (od_outcomeIds od))
       (enumerate 0 uos)"

section \<open>Snapshots as parsed JSON\<close>

text \<open>
  \<^verbatim>\<open>generateSVGVisualization\<close> checks nothing: it reads the properties of whatever
  value it is given. The snapshot is therefore also modelled as the value that
  \<^verbatim>\<open>JSON.parse\<close> returns, in which any property may be absent or hold a value of any
  type. \<^term>\<open>JObj\<close> lists the own properties of an object, each name once; \<^term>\<open>JNum\<close>
  holds the value of the number. A property that is not there reads as \<^verbatim>\<open>undefined\<close>,
  which is \<^term>\<open>None\<close>.
\<close>

datatype json =
  JNull
| JBool bool
| JNum rat
| JStr string
| JArr "json list"
| JObj "(string \<times> json) list"

text \<open>
  A \<^verbatim>\<open>TypeError\<close> carries the expression that throws. \<^term>\<open>Coercion\<close> is not an
  exception: it marks the one place where what the code does next is decided by the
  number and string conversions of the JavaScript runtime, which are not modelled. That
  place is \<^verbatim>\<open>indicatorCount > 0\<close> in \<^verbatim>\<open>createNode\<close> when \<^verbatim>\<open>indicators\<close> is an
  object with a property \<^verbatim>\<open>length\<close> of its own, whose value is then the count.
  \<^verbatim>\<open>isValidData\<close> accepts no such snapshot.
\<close>

datatype error = TypeError string | Coercion json

definition bindE :: "error + 'a \<Rightarrow> ('a \<Rightarrow> error + 'b) \<Rightarrow> error + 'b" where
  "bindE r f = (case r of Inl e \<Rightarrow> Inl e | Inr x \<Rightarrow> f x)"

text \<open>A \<^verbatim>\<open>forEach\<close> whose callback may throw: the first exception ends the loop.\<close>

fun foldE :: "('a \<Rightarrow> 's \<Rightarrow> error + 's) \<Rightarrow> 'a list \<Rightarrow> 's \<Rightarrow> error + 's" where
  "foldE f [] s = Inr s"
| "foldE f (x # xs) s = (case f x s of Inl e \<Rightarrow> Inl e | Inr s' \<Rightarrow> foldE f xs s')"

text \<open>
  \<^verbatim>\<open>v.name\<close> for a value that is neither \<^verbatim>\<open>undefined\<close> nor \<^verbatim>\<open>null\<close> and a name
  among \<^verbatim>\<open>version\<close>, \<^verbatim>\<open>impact\<close>, \<^verbatim>\<open>outcomes\<close>, \<^verbatim>\<open>id\<close>, \<^verbatim>\<open>statement\<close>,
  \<^verbatim>\<open>indicators\<close> and \<^verbatim>\<open>outputs\<close>: an object gives its property, and a boolean, a
  number, a string or an array has no property of these names.
\<close>

definition readProp :: "json \<Rightarrow> string \<Rightarrow> json option" where
  "readProp v name = (case v of JObj kvs \<Rightarrow> map_of kvs name | _ \<Rightarrow> None)"

text \<open>\<^verbatim>\<open>v.name\<close> for any value: reading a property of \<^verbatim>\<open>undefined\<close> or \<^verbatim>\<open>null\<close>
  throws.\<close>

definition getProp :: "json option \<Rightarrow> string \<Rightarrow> error \<Rightarrow> error + json option" where
  "getProp v name e =
     (case v of None \<Rightarrow> Inl e | Some JNull \<Rightarrow> Inl e | Some w \<Rightarrow> Inr (readProp w name))"

text \<open>\<^verbatim>\<open>v.forEach(...)\<close>: only an array has the method; on \<^verbatim>\<open>undefined\<close> and
  \<^verbatim>\<open>null\<close> the property read throws, on every other value the call does, a property
  \<^verbatim>\<open>forEach\<close> of a parsed object not being a function.\<close>

definition asArray :: "json option \<Rightarrow> error \<Rightarrow> error + json list" where
  "asArray v e = (case v of Some (JArr xs) \<Rightarrow> Inr xs | _ \<Rightarrow> Inl e)"

text \<open>\<^verbatim>\<open>v.trim()\<close>: only a string has the method.\<close>

definition asString :: "json option \<Rightarrow> error \<Rightarrow> error + string" where
  "asString v e = (case v of Some (JStr s) \<Rightarrow> Inr s | _ \<Rightarrow> Inl e)"

text \<open>
  The \<^verbatim>\<open>text\<close> argument of \<^verbatim>\<open>createNode\<close>. For \<^verbatim>\<open>undefined\<close> and \<^verbatim>\<open>null\<close>,
  \<^verbatim>\<open>text.length\<close> throws (line 233). For every other value that is not a string
  either \<^verbatim>\<open>text.substring\<close> (line 233) or \<^verbatim>\<open>truncatedText.split\<close> (line 247) is
  not a function, and nothing that happens before the throw can be observed.
\<close>

definition textArg :: "json option \<Rightarrow> error + string" where
  "textArg v = asString v (TypeError ''createNode: text'')"

text \<open>
  \<^verbatim>\<open>v.length\<close> as \<^verbatim>\<open>createNode\<close> receives it. It throws for \<^verbatim>\<open>undefined\<close> and
  \<^verbatim>\<open>null\<close>. An array and a string have a length. A boolean, a number and an object
  without a property \<^verbatim>\<open>length\<close> give \<^verbatim>\<open>undefined\<close>, for which the default value 0
  of the parameter \<^verbatim>\<open>indicatorCount\<close> stands in. An object with a property
  \<^verbatim>\<open>length\<close> gives the value of that property.
\<close>

datatype jscount = CountNat nat | CountVal json

fun readLength :: "json option \<Rightarrow> error \<Rightarrow> error + jscount" where
  "readLength None e = Inl e"
| "readLength (Some JNull) e = Inl e"
| "readLength (Some (JArr xs)) e = Inr (CountNat (length xs))"
| "readLength (Some (JStr s)) e = Inr (CountNat (length s))"
| "readLength (Some (JBool b)) e = Inr (CountNat 0)"
| "readLength (Some (JNum q)) e = Inr (CountNat 0)"
| "readLength (Some (JObj kvs)) e =
     (case map_of kvs ''length'' of None \<Rightarrow> Inr (CountNat 0) | Some w \<Rightarrow> Inr (CountVal w))"

text \<open>The \<^verbatim>\<open>indicatorCount\<close> argument at line 277, after the text has been wrapped.\<close>

definition countArg :: "jscount \<Rightarrow> error + nat" where
  "countArg c = (case c of CountNat n \<Rightarrow> Inr n | CountVal w \<Rightarrow> Inl (Coercion w))"

text \<open>
  The value of \<^verbatim>\<open>outcome.id\<close>, with an equality that is \<^verbatim>\<open>===\<close>: \<^verbatim>\<open>undefined\<close>,
  \<^verbatim>\<open>null\<close>, booleans, numbers and strings are compared by value, and an array or an
  object only equals itself, so it is named by the index of the outcome that holds it.
\<close>

datatype jsid = IdUndefined | IdNull | IdBool bool | IdNum rat | IdStr string | IdRef nat

fun idOf :: "nat \<Rightarrow> json option \<Rightarrow> jsid" where
  "idOf index None = IdUndefined"
| "idOf index (Some JNull) = IdNull"
| "idOf index (Some (JBool b)) = IdBool b"
| "idOf index (Some (JNum q)) = IdNum q"
| "idOf index (Some (JStr s)) = IdStr s"
| "idOf index (Some (JArr xs)) = IdRef index"
| "idOf index (Some (JObj kvs)) = IdRef index"

text \<open>Lines 33-45: \<^verbatim>\<open>outcome.outputs.forEach\<close> and, for each output,
  \<^verbatim>\<open>output.statement.trim()\<close>.\<close>

definition collectOutput_js ::
  "jsid \<Rightarrow> json \<Rightarrow> (jsid, json) outputsMap \<Rightarrow> error + (jsid, json) outputsMap" where
  "collectOutput_js oid out m =
     bindE (getProp (Some out) ''statement'' (TypeError ''output.statement.trim'')) (\<lambda>v.
     bindE (asString v (TypeError ''output.statement.trim'')) (\<lambda>statement.
     Inr (registerOutput (statementKey statement) oid out m)))"

definition collectOutcome_js ::
  "nat \<times> json \<Rightarrow> (jsid, json) outputsMap \<Rightarrow> error + (jsid, json) outputsMap" where
  "collectOutcome_js = (\<lambda>(index, oc) m.
     bindE (getProp (Some oc) ''outputs'' (TypeError ''outcome.outputs.forEach'')) (\<lambda>v.
     bindE (asArray v (TypeError ''outcome.outputs.forEach'')) (\<lambda>outs.
     foldE (collectOutput_js (idOf index (readProp oc ''id''))) outs m)))"

definition collectOutputs_js :: "json list \<Rightarrow> error + (jsid, json) outputsMap" where
  "collectOutputs_js ocs = foldE collectOutcome_js (enumerate 0 ocs) []"

text \<open>Lines 111-144: \<^verbatim>\<open>outcome.indicators.length\<close>, then \<^verbatim>\<open>createNode\<close> on
  \<^verbatim>\<open>outcome.statement\<close>, then the connection.\<close>

definition outcomeStep_js ::
  "rat \<Rightarrow> rat \<Rightarrow> element \<Rightarrow> nat \<times> json
    \<Rightarrow> element list \<times> jsid outcomeNode list \<Rightarrow> error + element list \<times> jsid outcomeNode list" where
  "outcomeStep_js tw sp impactGroup = (\<lambda>(index, oc) st.
     bindE (readLength (readProp oc ''indicators'') (TypeError ''outcome.indicators.length'')) (\<lambda>c.
     bindE (textArg (readProp oc ''statement'')) (\<lambda>statement.
     bindE (countArg c) (\<lambda>indicatorCount.
     Inr (outcomeStep tw sp impactGroup index (idOf index (readProp oc ''id'')) statement
            indicatorCount st)))))"

text \<open>Lines 151-197: \<^verbatim>\<open>output.indicators.length\<close>, then \<^verbatim>\<open>createNode\<close> on
  \<^verbatim>\<open>output.statement\<close>, then the connections.\<close>

definition outputStep_js ::
  "rat \<Rightarrow> jsid outcomeNode list \<Rightarrow> nat \<times> (jsid, json) outputData
    \<Rightarrow> element list \<Rightarrow> error + element list" where
  "outputStep_js sp outcomeNodes = (\<lambda>(index, outputData) children.
     bindE (readLength (readProp (od_output outputData) ''indicators'')
              (TypeError ''output.indicators.length'')) (\<lambda>c.
     bindE (textArg (readProp (od_output outputData) ''statement'')) (\<lambda>statement.
     bindE (countArg c) (\<lambda>indicatorCount.
     Inr (outputStep sp outcomeNodes index statement indicatorCount
            (od_outcomeIds outputData) children)))))"

text \<open>The statements of \<^verbatim>\<open>generateSVGVisualization\<close> in their order, each read
  either giving its value or throwing. The impact node is created with the count 0.\<close>

definition generateSVGVisualization_js :: "json \<Rightarrow> error + svg" where
  "generateSVGVisualization_js data =
     bindE (getProp (Some data) ''outcomes'' (TypeError ''data.outcomes.forEach'')) (\<lambda>v.
     bindE (asArray v (TypeError ''data.outcomes.forEach'')) (\<lambda>ocs.
     bindE (collectOutputs_js ocs) (\<lambda>m.
     bindE (getProp (readProp data ''impact'') ''statement'' (TypeError ''data.impact.statement''))
       (\<lambda>impactStatement.
     bindE (textArg impactStatement) (\<lambda>statement.
     bindE (foldE
              (outcomeStep_js (totalWidth (length ocs) (length m))
                 (totalWidth (length ocs) (length m) / of_nat (length ocs + 1))
                 (Group (impactNode (totalWidth (length ocs) (length m)) statement)))
              (enumerate 0 ocs)
              ([Title titleText, Desc (descText (length ocs) (length m)), Defs,
                Group (impactNode (totalWidth (length ocs) (length m)) statement)], []))
       (\<lambda>(children1, outcomeNodes).
     bindE (foldE
              (outputStep_js (totalWidth (length ocs) (length m) / of_nat (length m + 1))
                 outcomeNodes)
              (enumerate 0 (map snd m)) children1)
       (\<lambda>children2.
     Inr \<lparr>svg_width = totalWidth (length ocs) (length m), svg_height = totalHeight,
          svg_children = children2\<rparr>)))))))"

text \<open>A snapshot of the data model as the JSON it is stored as (the exporter adds
  \<^verbatim>\<open>lastModified\<close>, which nothing here reads).\<close>

definition toJS_indicator :: "indicator \<Rightarrow> json" where
  "toJS_indicator i =
     JObj [(''id'', JStr (indicator_id i)), (''description'', JStr (indicator_description i))]"

definition toJS_output :: "toc_output \<Rightarrow> json" where
  "toJS_output out =
     JObj [(''id'', JStr (output_id out)), (''statement'', JStr (output_statement out)),
           (''indicators'', JArr (map toJS_indicator (output_indicators out)))]"

definition toJS_outcome :: "outcome \<Rightarrow> json" where
  "toJS_outcome oc =
     JObj [(''id'', JStr (outcome_id oc)), (''statement'', JStr (outcome_statement oc)),
           (''indicators'', JArr (map toJS_indicator (outcome_indicators oc))),
           (''outputs'', JArr (map toJS_output (outcome_outputs oc)))]"

definition toJS :: "snapshot \<Rightarrow> json" where
  "toJS data =
     JObj [(''version'', JStr ''1.0''),
           (''impact'', JObj [(''id'', JStr (impact_id (data_impact data))),
                              (''statement'', JStr (impact_statement (data_impact data)))]),
           (''outcomes'', JArr (map toJS_outcome (data_outcomes data)))]"

text \<open>
  \<^verbatim>\<open>StorageManager.isValidData\<close>, the check that the storage and import code runs on
  parsed JSON before it reaches the data model. \<^verbatim>\<open>!v\<close> is true of \<^verbatim>\<open>undefined\<close>,
  \<^verbatim>\<open>null\<close>, \<^verbatim>\<open>false\<close>, 0 and the empty string. \<^verbatim>\<open>typeof v\<close> is \<^verbatim>\<open>'object'\<close> for
  \<^verbatim>\<open>null\<close>, arrays and objects. Reading \<^verbatim>\<open>outcome.id\<close> or \<^verbatim>\<open>output.id\<close> of a
  \<^verbatim>\<open>null\<close> element throws; its callers catch that.
\<close>

text \<open>What \<^verbatim>\<open>data.impact.statement\<close> reads when \<^verbatim>\<open>data.impact\<close> is not
  \<^verbatim>\<open>null\<close>; \<^term>\<open>None\<close> also when there is no \<^verbatim>\<open>impact\<close>.\<close>

definition impactStatement :: "json \<Rightarrow> json option" where
  "impactStatement data =
     (case readProp data ''impact'' of None \<Rightarrow> None | Some imp \<Rightarrow> readProp imp ''statement'')"

fun truthy :: "json option \<Rightarrow> bool" where
  "truthy None = False"
| "truthy (Some JNull) = False"
| "truthy (Some (JBool b)) = b"
| "truthy (Some (JNum q)) = (q \<noteq> 0)"
| "truthy (Some (JStr s)) = (s \<noteq> [])"
| "truthy (Some (JArr xs)) = True"
| "truthy (Some (JObj kvs)) = True"

fun isObjectType :: "json \<Rightarrow> bool" where
  "isObjectType JNull = True"
| "isObjectType (JArr xs) = True"
| "isObjectType (JObj kvs) = True"
| "isObjectType v = False"

definition isArray :: "json option \<Rightarrow> bool" where
  "isArray v = (case v of Some (JArr xs) \<Rightarrow> True | _ \<Rightarrow> False)"

definition isString :: "json option \<Rightarrow> bool" where
  "isString v = (case v of Some (JStr s) \<Rightarrow> True | _ \<Rightarrow> False)"

fun validOutputs :: "json list \<Rightarrow> error + bool" where
  "validOutputs [] = Inr True"
| "validOutputs (out # outs) =
     (if out = JNull then Inl (TypeError ''output.id'')
      else if \<not> truthy (readProp out ''id'') \<or> \<not> isArray (readProp out ''indicators'') then Inr False
      else validOutputs outs)"

fun validOutcomes :: "json list \<Rightarrow> error + bool" where
  "validOutcomes [] = Inr True"
| "validOutcomes (oc # ocs) =
     (if oc = JNull then Inl (TypeError ''outcome.id'')
      else if \<not> truthy (readProp oc ''id'') \<or> \<not> isArray (readProp oc ''indicators'')
              \<or> \<not> isArray (readProp oc ''outputs'') then Inr False
      else case readProp oc ''outputs'' of
        Some (JArr outs) \<Rightarrow>
          (case validOutputs outs of
             Inl e \<Rightarrow> Inl e
           | Inr ok \<Rightarrow> if ok then validOutcomes ocs else Inr False)
      | _ \<Rightarrow> Inr False)"

definition isValidData :: "json \<Rightarrow> error + bool" where
  "isValidData data =
     (if \<not> truthy (Some data) \<or> \<not> isObjectType data then Inr False
      else if \<not> truthy (readProp data ''version'') then Inr False
      else if \<not> truthy (readProp data ''impact'') then Inr False
      else if \<not> truthy (impactStatement data) then Inr False
      else case readProp data ''outcomes'' of
        Some (JArr ocs) \<Rightarrow> validOutcomes ocs
      | _ \<Rightarrow> Inr False)"

section \<open>Example snapshots\<close>

text \<open>The scenario of two outcomes that both own \<^verbatim>\<open>Shared Thing\<close>, the first also
  owning \<^verbatim>\<open>Only A\<close>.\<close>

definition scenario :: snapshot where
  "scenario =
     \<lparr>data_impact = \<lparr>impact_id = ''impact-1'', impact_statement = ''X''\<rparr>,
      data_outcomes =
        [\<lparr>outcome_id = ''A'', outcome_statement = ''Outcome A'', outcome_indicators = [],
          outcome_outputs =
            [\<lparr>output_id = ''o1'', output_statement = ''Shared Thing'', output_indicators = []\<rparr>,
             \<lparr>output_id = ''o2'', output_statement = ''Only A'', output_indicators = []\<rparr>]\<rparr>,
         \<lparr>outcome_id = ''B'', outcome_statement = ''Outcome B'', outcome_indicators = [],
          outcome_outputs =
            [\<lparr>output_id = ''o3'', output_statement = ''Shared Thing'',
              output_indicators = []\<rparr>]\<rparr>]\<rparr>"

text \<open>One outcome that lists the same statement twice.\<close>

definition twiceInOne :: snapshot where
  "twiceInOne =
     \<lparr>data_impact = \<lparr>impact_id = ''impact-1'', impact_statement = ''X''\<rparr>,
      data_outcomes =
        [\<lparr>outcome_id = ''A'', outcome_statement = ''Outcome A'', outcome_indicators = [],
          outcome_outputs =
            [\<lparr>output_id = ''o1'', output_statement = ''Publish guide'', output_indicators = []\<rparr>,
             \<lparr>output_id = ''o2'', output_statement = ''Publish guide'',
              output_indicators = []\<rparr>]\<rparr>]\<rparr>"

text \<open>No outcomes at all.\<close>

definition noOutcomes :: snapshot where
  "noOutcomes =
     \<lparr>data_impact = \<lparr>impact_id = ''impact-1'', impact_statement = ''X''\<rparr>, data_outcomes = []\<rparr>"

text \<open>Changing the ids and the output objects of an entry, and the id of an anchor.\<close>

definition map_od :: "('i \<Rightarrow> 'j) \<Rightarrow> ('a \<Rightarrow> 'b) \<Rightarrow> ('i, 'a) outputData \<Rightarrow> ('j, 'b) outputData" where
  "map_od f g od = \<lparr>od_output = g (od_output od), od_outcomeIds = map f (od_outcomeIds od)\<rparr>"

definition map_on :: "('i \<Rightarrow> 'j) \<Rightarrow> 'i outcomeNode \<Rightarrow> 'j outcomeNode" where
  "map_on f n = \<lparr>on_id = f (on_id n), on_x = on_x n, on_y = on_y n, on_node = on_node n\<rparr>"

text \<open>
  A snapshot lacks a required field when \<^verbatim>\<open>outcomes\<close> is not an array or
  \<^verbatim>\<open>impact.statement\<close> reads as \<^verbatim>\<open>undefined\<close> or cannot be read. It has the types
  of the data model when \<^verbatim>\<open>impact.statement\<close> and the statement of every outcome and
  output are strings, and \<^verbatim>\<open>outcomes\<close>, the \<^verbatim>\<open>indicators\<close> and \<^verbatim>\<open>outputs\<close> of every
  outcome and the \<^verbatim>\<open>indicators\<close> of every output are arrays; ids, the version and any
  other property are left free.
\<close>

definition malformed :: "json \<Rightarrow> bool" where
  "malformed data = (\<not> isArray (readProp data ''outcomes'') \<or> impactStatement data = None)"

definition wellTypedOutput :: "json \<Rightarrow> bool" where
  "wellTypedOutput out =
     (isString (readProp out ''statement'') \<and> isArray (readProp out ''indicators''))"

definition wellTypedOutcome :: "json \<Rightarrow> bool" where
  "wellTypedOutcome oc =
     (isString (readProp oc ''statement'') \<and> isArray (readProp oc ''indicators'')
      \<and> (case readProp oc ''outputs'' of
            Some (JArr outs) \<Rightarrow> list_all wellTypedOutput outs
          | _ \<Rightarrow> False))"

definition wellTyped :: "json \<Rightarrow> bool" where
  "wellTyped data =
     (isString (impactStatement data)
      \<and> (case readProp data ''outcomes'' of
            Some (JArr ocs) \<Rightarrow> list_all wellTypedOutcome ocs
          | _ \<Rightarrow> False))"

text \<open>Every output object held in a map has a given property; and the property of having
  an array as \<^verbatim>\<open>indicators\<close>.\<close>

definition outputsAll :: "('o \<Rightarrow> bool) \<Rightarrow> ('i, 'o) outputsMap \<Rightarrow> bool" where
  "outputsAll P m = (\<forall>p \<in> set m. P (od_output (snd p)))"

definition arrayIndicators :: "json \<Rightarrow> bool" where
  "arrayIndicators v = isArray (readProp v ''indicators'')"

text \<open>The outcomes whose outputs include a statement with the given key.\<close>

definition contributingOutcomes :: "string \<Rightarrow> outcome list \<Rightarrow> outcome list" where
  "contributingOutcomes key ocs =
     filter (\<lambda>oc. key \<in> set (map (\<lambda>out. statementKey (output_statement out)) (outcome_outputs oc)))
       ocs"

text \<open>
  Parsed JSON that the data model would not produce: no \<^verbatim>\<open>outcomes\<close>; no
  \<^verbatim>\<open>impact\<close>; an outcome without \<^verbatim>\<open>outputs\<close>; an output without \<^verbatim>\<open>statement\<close>;
  no \<^verbatim>\<open>impact\<close> and an outcome without \<^verbatim>\<open>outputs\<close>; the number 42 as
  \<^verbatim>\<open>impact.statement\<close>; and a snapshot without version, with a number as id and
  \<^verbatim>\<open>null\<close> among its indicators, but with every statement a string and every list
  an array.
\<close>

definition js_outcomeA :: "(string \<times> json) list \<Rightarrow> json" where
  "js_outcomeA others =
     JObj ([(''id'', JStr ''A''), (''statement'', JStr ''Outcome A''),
            (''indicators'', JArr [])] @ others)"

definition js_impactX :: "string \<times> json" where
  "js_impactX = (''impact'', JObj [(''id'', JStr ''impact-1''), (''statement'', JStr ''X'')])"

definition js_noOutcomesField :: json where
  "js_noOutcomesField = JObj [(''version'', JStr ''1.0''), js_impactX]"

definition js_noImpact :: json where
  "js_noImpact =
     JObj [(''version'', JStr ''1.0''),
           (''outcomes'', JArr [js_outcomeA [(''outputs'', JArr
              [JObj [(''id'', JStr ''o1''), (''statement'', JStr ''Publish guide''),
                     (''indicators'', JArr [])]])]])]"

definition js_noOutputsField :: json where
  "js_noOutputsField =
     JObj [(''version'', JStr ''1.0''), js_impactX, (''outcomes'', JArr [js_outcomeA []])]"

definition js_noOutputStatement :: json where
  "js_noOutputStatement =
     JObj [(''version'', JStr ''1.0''), js_impactX,
           (''outcomes'', JArr [js_outcomeA [(''outputs'', JArr
              [JObj [(''id'', JStr ''o1''), (''indicators'', JArr [])]])]])]"

definition js_noImpactNoOutputs :: json where
  "js_noImpactNoOutputs =
     JObj [(''version'', JStr ''1.0''), (''outcomes'', JArr [js_outcomeA []])]"

definition js_numberStatement :: json where
  "js_numberStatement =
     JObj [(''version'', JStr ''1.0''), (''impact'', JObj [(''statement'', JNum 42)]),
           (''outcomes'', JArr [])]"

definition js_typedOnly :: json where
  "js_typedOnly =
     JObj [(''impact'', JObj [(''statement'', JStr [])]),
           (''outcomes'', JArr
              [JObj [(''id'', JNum 7), (''statement'', JStr []),
                     (''indicators'', JArr [JNull]),
                     (''outputs'', JArr
                        [JObj [(''statement'', JStr ''x''), (''indicators'', JArr [])]])]])]"

text \<open>
  What the two nested loops visit: every output of every outcome, in order, paired with
  the id of its outcome. \<^term>\<open>grouped\<close> regroups such a list by key: the keys in the order
  of their first occurrence, each with the output of its first occurrence and the outcome
  ids of all its occurrences.
\<close>

definition occurrences :: "outcome list \<Rightarrow> (string \<times> toc_output) list" where
  "occurrences ocs =
     concat (map (\<lambda>oc. map (\<lambda>out. (outcome_id oc, out)) (outcome_outputs oc)) ocs)"

definition occKey :: "string \<times> toc_output \<Rightarrow> string" where
  "occKey p = statementKey (output_statement (snd p))"

definition firstSeen :: "'a list \<Rightarrow> 'a list" where
  "firstSeen xs = rev (remdups (rev xs))"

definition groupOf :: "(string \<times> toc_output) list \<Rightarrow> string \<Rightarrow> (string, toc_output) outputData" where
  "groupOf occs k =
     \<lparr>od_output = snd (hd (filter (\<lambda>p. occKey p = k) occs)),
      od_outcomeIds = map fst (filter (\<lambda>p. occKey p = k) occs)\<rparr>"

definition grouped :: "(string \<times> toc_output) list \<Rightarrow> (string, toc_output) outputsMap" where
  "grouped occs = map (\<lambda>k. (k, groupOf occs k)) (firstSeen (map occKey occs))"

text \<open>Words joined by single spaces, as the wrap loop joins them.\<close>

fun joinSpace :: "string list \<Rightarrow> string" where
  "joinSpace [] = []"
| "joinSpace [w] = w"
| "joinSpace (w # ws) = w @ '' '' @ joinSpace ws"

text \<open>A line made of whole words of a word list: the words of some run joined by single
  spaces, and either at most 31 code units long or a single word of the list.\<close>

definition wholeWords :: "string list \<Rightarrow> string \<Rightarrow> bool" where
  "wholeWords ws l = ((\<exists>run. l = joinSpace run \<and> set run \<subseteq> set ws)
                      \<and> (length l \<le> 31 \<or> l \<in> set ws))"

section \<open>Properties of the text fitter\<close>

text \<open>
  C6, as the code has it. A text of at most 60 code units is left as it is. A longer text
  is cut to its first 57 code units and three full stops are appended, so that the
  result has exactly 60 code units; it is not cut at 60, and no single ellipsis
  character is used.
\<close>

theorem truncatedText_cases:
  "(length text \<le> 60 \<longrightarrow> truncatedText text = text)
   \<and> (length text > 60 \<longrightarrow>
        truncatedText text = take 57 text @ ''...''
        \<and> length (truncatedText text) = 60
        \<and> take 57 (truncatedText text) = take 57 text)"
  by (simp add: truncatedText_def)

theorem truncatedText_cases_witness:
  "length ''Only A'' \<le> 60 \<and> truncatedText ''Only A'' = ''Only A''
   \<and> length (replicate 61 (CHR ''a'')) > 60
   \<and> truncatedText (replicate 61 (CHR ''a'')) = take 57 (replicate 61 (CHR ''a'')) @ ''...''
   \<and> length (truncatedText (replicate 61 (CHR ''a''))) = 60"
  using truncatedText_cases [of "''Only A''"] truncatedText_cases [of "replicate 61 (CHR ''a'')"]
  by simp

text \<open>
  C6 as the specification words it fails on a text of 61 code units: the result has 60
  code units, not 61, and its first 60 code units are not the first 60 of the text.
\<close>

theorem truncatedText_counterexample:
  "truncatedText (replicate 61 (CHR ''a'')) = replicate 57 (CHR ''a'') @ ''...''
   \<and> length (truncatedText (replicate 61 (CHR ''a''))) = 60
   \<and> take 60 (truncatedText (replicate 61 (CHR ''a''))) \<noteq> take 60 (replicate 61 (CHR ''a''))"
  by code_simp

text \<open>
  C5 at the text \<^verbatim>\<open>Standards adoption consistently\<close>: the wrap loop compares
  \<^verbatim>\<open>(currentLine + word).length\<close> with 30 and then joins with a space, so the three
  words end on one display line of 31 code units.
\<close>

theorem wrap_line_of_31:
  "displayLines ''Standards adoption consistently'' = [''Standards adoption consistently'']
   \<and> splitSpace ''Standards adoption consistently'' = [''Standards'', ''adoption'', ''consistently'']
   \<and> length (hd (displayLines ''Standards adoption consistently'')) = 31"
  by code_simp

section \<open>Properties of the indicator badge\<close>

lemma string_of_nat_1: "string_of_nat (Suc 0) = ''1''"
  by (simp add: string_of_nat.simps digitChar_def)

text \<open>
  C10. A node has a badge exactly when its indicator count is at least 1. The badge's
  tooltip is \<^verbatim>\<open>1 indicator\<close> for the count 1 and the decimal count followed by
  \<^verbatim>\<open> indicators\<close> for every larger count.
\<close>

theorem indicator_badge:
  "(node_badge (createNode x y w h text color label n sh) \<noteq> None) = (n \<ge> 1)
   \<and> (\<forall>b. node_badge (createNode x y w h text color label n sh) = Some b \<longrightarrow>
         badge_text b = string_of_nat n
         \<and> badge_title b = (if n = 1 then ''1 indicator'' else string_of_nat n @ '' indicators''))"
  by (auto simp: createNode_def indicatorBadge_def Let_def string_of_nat_1)

theorem indicator_badge_witness:
  "node_badge (createNode 0 0 200 80 ''t'' color_outcome ''Outcome'' 3 False)
     = Some \<lparr>badge_cx = 185, badge_cy = 5, badge_text = ''3'', badge_title = ''3 indicators''\<rparr>
   \<and> badge_title \<lparr>badge_cx = 185, badge_cy = 5, badge_text = ''3'', badge_title = ''3 indicators''\<rparr>
     = (if (3::nat) = 1 then ''1 indicator'' else string_of_nat 3 @ '' indicators'')"
  using indicator_badge [of 0 0 200 80 "''t''" color_outcome "''Outcome''" 3 False]
  by (simp add: createNode_def indicatorBadge_def Let_def string_of_nat.simps digitChar_def)

section \<open>Properties of the collected outputs\<close>

text \<open>
  C1 at an outcome \<^verbatim>\<open>A\<close> that lists the statement \<^verbatim>\<open>Publish guide\<close> twice: the
  second occurrence pushes the id of \<^verbatim>\<open>A\<close> again, so the one unique output carries
  the id twice.
\<close>

theorem duplicate_in_one_outcome:
  "uniqueOutputs
     [\<lparr>outcome_id = ''A'', outcome_statement = ''a'', outcome_indicators = [],
       outcome_outputs =
         [\<lparr>output_id = ''o1'', output_statement = ''Publish guide'', output_indicators = []\<rparr>,
          \<lparr>output_id = ''o2'', output_statement = ''Publish guide'', output_indicators = []\<rparr>]\<rparr>]
   = [\<lparr>od_output = \<lparr>output_id = ''o1'', output_statement = ''Publish guide'',
                     output_indicators = []\<rparr>,
       od_outcomeIds = [''A'', ''A'']\<rparr>]"
  by code_simp

section \<open>The child list in closed form\<close>

lemma insertBefore_at:
  "ref \<notin> set pre \<Longrightarrow> insertBefore new ref (pre @ ref # post) = pre @ new # ref # post"
  by (induction pre) auto

lemma outcomes_fold:
  "ig \<notin> set pre \<Longrightarrow> isGroup ig \<Longrightarrow>
   fold (\<lambda>(index, oc). outcomeStep tw sp ig index (outcome_id oc) (outcome_statement oc)
                          (length (outcome_indicators oc)))
     (enumerate k ocs) (pre @ ig # post, ons)
   = (pre @ map (\<lambda>(i, oc). Path (impactConnection tw sp i)) (enumerate k ocs) @ ig # post
        @ map (\<lambda>(i, oc). Group (outcomeBox sp i (outcome_statement oc)
                                   (length (outcome_indicators oc)))) (enumerate k ocs),
      ons @ map (\<lambda>(i, oc). outcomeAnchor sp i (outcome_id oc) (outcome_statement oc)
                              (length (outcome_indicators oc))) (enumerate k ocs))"
proof (induction ocs arbitrary: k pre post ons)
  case Nil
  then show ?case by simp
next
  case (Cons oc ocs)
  let ?c = "Path (impactConnection tw sp k)"
  let ?g = "Group (outcomeBox sp k (outcome_statement oc) (length (outcome_indicators oc)))"
  have notin: "ig \<notin> set (pre @ [?c])"
    using Cons.prems by (cases ig) auto
  have step: "insertBefore ?c ig ((pre @ ig # post) @ [?g]) = (pre @ [?c]) @ ig # (post @ [?g])"
    using insertBefore_at [OF Cons.prems(1), of ?c "post @ [?g]"] by simp
  show ?case
    using Cons.IH [OF notin Cons.prems(2), of "Suc k" "post @ [?g]"]
    by (simp add: outcomeStep_def step del: append_assoc)
qed

lemma connect_fold:
  "fold (connectOutcome ons x y sh) ids (t # rest)
   = t # rev (map Path (List.map_filter (\<lambda>outcomeId.
         map_option (\<lambda>outcomeNode.
             createConnection (on_x outcomeNode) (on_y outcomeNode)
               (x + itemWidth / 2) y color_connection sh)
           (find (\<lambda>n. on_id n = outcomeId) ons)) ids)) @ rest"
proof (induction ids arbitrary: rest)
  case Nil
  then show ?case by simp
next
  case (Cons a ids)
  then show ?case
    by (cases "find (\<lambda>n. on_id n = a) ons") (simp_all add: connectOutcome_def)
qed

lemma outputs_fold:
  "fold (\<lambda>(index, od). outputStep sp ons index (output_statement (od_output od))
                          (length (output_indicators (od_output od))) (od_outcomeIds od))
     (enumerate k uos) (t # rest)
   = t # rev (concat (map (\<lambda>(i, od). map Path (outputConnections ons sp i (od_outcomeIds od)))
                        (enumerate k uos)))
       @ rest
       @ map (\<lambda>(i, od). Group (outputNode sp i (output_statement (od_output od))
                                  (length (output_indicators (od_output od))) (od_outcomeIds od)))
           (enumerate k uos)"
proof (induction uos arbitrary: k rest)
  case Nil
  then show ?case by simp
next
  case (Cons od uos)
  let ?ids = "od_outcomeIds od"
  let ?g = "Group (outputNode sp k (output_statement (od_output od))
                     (length (output_indicators (od_output od))) ?ids)"
  have step: "outputStep sp ons k (output_statement (od_output od))
                (length (output_indicators (od_output od))) ?ids (t # rest)
              = t # (rev (map Path (outputConnections ons sp k ?ids)) @ rest @ [?g])"
    using connect_fold [of ons "outputX sp k" outputsY "length ?ids > 1" ?ids t "rest @ [?g]"]
    by (simp add: outputStep_def outputConnections_def)
  show ?case
    by (simp add: step Cons.IH)
qed

lemma nodesOf_map_Path: "nodesOf (map Path cs) = []"
  by (induction cs) simp_all

lemma pathsOf_map_Path: "pathsOf (map Path cs) = cs"
  by (induction cs) simp_all

lemma nodesOf_map_Group: "nodesOf (map Group ns) = ns"
  by (induction ns) simp_all

lemma pathsOf_map_Group: "pathsOf (map Group ns) = []"
  by (induction ns) simp_all

lemma nodesOf_append: "nodesOf (xs @ ys) = nodesOf xs @ nodesOf ys"
  by (induction xs rule: nodesOf.induct) simp_all

lemma pathsOf_append: "pathsOf (xs @ ys) = pathsOf xs @ pathsOf ys"
  by (induction xs rule: pathsOf.induct) simp_all

lemma outcomesLayer_closed:
  "outcomesLayer tw (Group g) ocs [t, d, f, Group g]
   = ([t, d, f] @ map Path (impactConnections tw ocs) @ Group g # map Group (outcomeBoxes tw ocs),
      outcomeAnchors tw ocs)" if "Group g \<notin> {t, d, f}"
  using outcomes_fold [of "Group g" "[t, d, f]" tw "outcomeSpacing tw ocs" 0 ocs "[]" "[]"] that
  by (simp add: outcomesLayer_def impactConnections_def outcomeBoxes_def outcomeAnchors_def
      outcomeSpacing_def case_prod_unfold comp_def)

lemma outputsLayer_closed:
  "outputsLayer tw ons uos (t # rest)
   = t # rev (map Path (concat (sharedConnections tw ons uos))) @ rest
       @ map Group (outputBoxes tw uos)"
  using outputs_fold [of "outputSpacing tw uos" ons 0 uos t rest]
  by (simp add: outputsLayer_def sharedConnections_def outputBoxes_def outputSpacing_def
      map_concat case_prod_unfold comp_def)

lemma svg_children_closed:
  "svg_children (generateSVGVisualization data)
   = (let ocs = data_outcomes data; uos = uniqueOutputs ocs;
          tw = totalWidth (length ocs) (length uos)
      in Title titleText
         # rev (map Path (concat (sharedConnections tw (outcomeAnchors tw ocs) uos)))
         @ [Desc (descText (length ocs) (length uos)), Defs]
         @ map Path (impactConnections tw ocs)
         @ Group (impactNode tw (impact_statement (data_impact data)))
         # map Group (outcomeBoxes tw ocs)
         @ map Group (outputBoxes tw uos))"
  by (simp add: generateSVGVisualization_def Let_def outcomesLayer_closed outputsLayer_closed)


lemma nodesOf_children:
  "nodesOf (svg_children (generateSVGVisualization data))
   = (let ocs = data_outcomes data; uos = uniqueOutputs ocs;
          tw = totalWidth (length ocs) (length uos)
      in impactNode tw (impact_statement (data_impact data))
         # outcomeBoxes tw ocs @ outputBoxes tw uos)"
  by (simp add: svg_children_closed Let_def nodesOf_append nodesOf_map_Path nodesOf_map_Group
      rev_map)

lemma pathsOf_children:
  "pathsOf (svg_children (generateSVGVisualization data))
   = (let ocs = data_outcomes data; uos = uniqueOutputs ocs;
          tw = totalWidth (length ocs) (length uos)
      in rev (concat (sharedConnections tw (outcomeAnchors tw ocs) uos))
         @ impactConnections tw ocs)"
  by (simp add: svg_children_closed Let_def pathsOf_append pathsOf_map_Path pathsOf_map_Group
      rev_map)

lemma svg_width_eq:
  "svg_width (generateSVGVisualization data)
   = totalWidth (length (data_outcomes data)) (length (uniqueOutputs (data_outcomes data)))"
  by (simp add: generateSVGVisualization_def Let_def case_prod_unfold)

lemma svg_height_eq: "svg_height (generateSVGVisualization data) = 580"
  by (simp add: generateSVGVisualization_def Let_def case_prod_unfold totalHeight_def config_defs)

section \<open>Canvas width and the spacing of a rank\<close>

lemma totalWidth_eq:
  "totalWidth n m = max 1200 (of_nat (max (max n m) 1) * 240 + 40)"
  by (simp add: totalWidth_def config_defs)

lemma totalWidth_gt:
  assumes "k \<le> max (max n m) 1"
  shows "200 * of_nat (k + 1) < totalWidth n m"
proof (cases "k \<le> 4")
  case True
  then have "(of_nat k :: rat) \<le> of_nat 4"
    by (simp only: of_nat_le_iff)
  then have "200 * (of_nat (k + 1) :: rat) \<le> 1000" by simp
  moreover have "1200 \<le> totalWidth n m" by (simp add: totalWidth_eq)
  ultimately show ?thesis by linarith
next
  case False
  then have "(of_nat 5 :: rat) \<le> of_nat k"
    by (simp only: of_nat_le_iff)
  then have a: "200 * (of_nat (k + 1) :: rat) < of_nat k * 240 + 40" by simp
  have "(of_nat k :: rat) \<le> of_nat (max (max n m) 1)"
    using assms by (simp only: of_nat_le_iff)
  then have "(of_nat k :: rat) * 240 + 40 \<le> of_nat (max (max n m) 1) * 240 + 40" by simp
  also have "\<dots> \<le> totalWidth n m" by (simp add: totalWidth_eq)
  finally show ?thesis using a by linarith
qed

lemma spacing_gt:
  assumes "k \<le> max (max n m) 1"
  shows "200 < totalWidth n m / of_nat (k + 1)"
proof -
  have "(0::rat) < of_nat (k + 1)" by simp
  then show ?thesis
    using totalWidth_gt [OF assms] by (simp add: pos_less_divide_eq)
qed

lemma slot_gap:
  assumes "(200::rat) < sp" and "i < j"
  shows "sp * of_nat (i + 1) - 100 + 200 < sp * of_nat (j + 1) - 100"
proof -
  have "(of_nat (i + 2) :: rat) \<le> of_nat (j + 1)"
    using assms(2) by simp
  then have "sp * of_nat (i + 2) \<le> sp * of_nat (j + 1)"
    using assms(1) by (intro mult_left_mono) simp_all
  moreover have "sp * of_nat (i + 2) = sp * of_nat (i + 1) + sp"
    by (simp add: algebra_simps)
  ultimately show ?thesis using assms(1) by linarith
qed

lemma createNode_geometry:
  "rect_x (createNode x y w h t c l n sh) = x"
  "rect_y (createNode x y w h t c l n sh) = y"
  "rect_width (createNode x y w h t c l n sh) = w"
  "rect_height (createNode x y w h t c l n sh) = h"
  "rect_title (createNode x y w h t c l n sh) = t"
  "rect_stroke_width (createNode x y w h t c l n sh) = (if sh then 3 else 1)"
  by (simp_all add: createNode_def Let_def)

lemma outcomeBoxes_nth:
  "i < length ocs \<Longrightarrow>
   outcomeBoxes tw ocs ! i
   = outcomeBox (outcomeSpacing tw ocs) i (outcome_statement (ocs ! i))
       (length (outcome_indicators (ocs ! i)))"
  by (simp add: outcomeBoxes_def nth_enumerate_eq)

lemma outputBoxes_nth:
  "i < length uos \<Longrightarrow>
   outputBoxes tw uos ! i
   = outputNode (outputSpacing tw uos) i (output_statement (od_output (uos ! i)))
       (length (output_indicators (od_output (uos ! i)))) (od_outcomeIds (uos ! i))"
  by (simp add: outputBoxes_def nth_enumerate_eq)

lemma length_boxes [simp]:
  "length (outcomeBoxes tw ocs) = length ocs" "length (outputBoxes tw uos) = length uos"
  by (simp_all add: outcomeBoxes_def outputBoxes_def)

text \<open>
  C4. The canvas is \<open>max(1200, max(n, m, 1) * (200 + 40) + 2 * 20)\<close> wide for \<open>n\<close>
  outcomes and \<open>m\<close> unique outputs. The scene holds the impact box, then the \<open>n\<close> outcome
  boxes, then the \<open>m\<close> output boxes; the i-th box of a rank of \<open>k\<close> boxes is 200 wide and
  centred at \<open>(totalWidth / (k + 1)) * i\<close> (counting from 1), and within a rank every
  box ends strictly left of where the next ones begin.
\<close>

theorem layout_no_overlap:
  fixes data :: snapshot
  defines "ocs \<equiv> data_outcomes data"
  defines "uos \<equiv> uniqueOutputs (data_outcomes data)"
  defines "sv \<equiv> generateSVGVisualization data"
  defines "ns \<equiv> nodesOf (svg_children (generateSVGVisualization data))"
  shows "svg_width sv = max 1200 (of_nat (max (max (length ocs) (length uos)) 1) * (200 + 40) + 2 * 20)
    \<and> length ns = 1 + length ocs + length uos
    \<and> (\<forall>i < length ocs.
          rect_width (ns ! (1 + i)) = 200
          \<and> rect_x (ns ! (1 + i)) + 200 / 2 = svg_width sv / of_nat (length ocs + 1) * of_nat (i + 1))
    \<and> (\<forall>i < length uos.
          rect_width (ns ! (1 + length ocs + i)) = 200
          \<and> rect_x (ns ! (1 + length ocs + i)) + 200 / 2
              = svg_width sv / of_nat (length uos + 1) * of_nat (i + 1))
    \<and> (\<forall>i j. i < j \<and> j < length ocs \<longrightarrow>
          rect_x (ns ! (1 + i)) + rect_width (ns ! (1 + i)) < rect_x (ns ! (1 + j)))
    \<and> (\<forall>i j. i < j \<and> j < length uos \<longrightarrow>
          rect_x (ns ! (1 + length ocs + i)) + rect_width (ns ! (1 + length ocs + i))
            < rect_x (ns ! (1 + length ocs + j)))"
proof -
  let ?tw = "totalWidth (length ocs) (length uos)"
  have w: "svg_width sv = ?tw"
    by (simp add: sv_def ocs_def uos_def svg_width_eq)
  have ns: "ns = impactNode ?tw (impact_statement (data_impact data))
                  # outcomeBoxes ?tw ocs @ outputBoxes ?tw uos"
    by (simp add: ns_def nodesOf_children Let_def ocs_def uos_def)
  have oc_nth: "ns ! Suc i = outcomeBox (outcomeSpacing ?tw ocs) i (outcome_statement (ocs ! i))
       (length (outcome_indicators (ocs ! i)))" if "i < length ocs" for i
    using that by (simp add: ns nth_append outcomeBoxes_nth)
  have uo_nth: "ns ! Suc (length ocs + i) = outputNode (outputSpacing ?tw uos) i
       (output_statement (od_output (uos ! i)))
       (length (output_indicators (od_output (uos ! i)))) (od_outcomeIds (uos ! i))"
    if "i < length uos" for i
    using that by (simp add: ns nth_append outputBoxes_nth)
  have osp: "200 < outcomeSpacing ?tw ocs"
    unfolding outcomeSpacing_def by (rule spacing_gt) simp
  have usp: "200 < outputSpacing ?tw uos"
    unfolding outputSpacing_def by (rule spacing_gt) simp
  have c1: "svg_width sv = max 1200 (of_nat (max (max (length ocs) (length uos)) 1) * (200 + 40) + 2 * 20)"
    by (simp add: w totalWidth_eq)
  have c2: "length ns = 1 + length ocs + length uos"
    by (simp add: ns)
  have c3: "\<forall>i < length ocs.
          rect_width (ns ! (1 + i)) = 200
          \<and> rect_x (ns ! (1 + i)) + 200 / 2 = svg_width sv / of_nat (length ocs + 1) * of_nat (i + 1)"
    by (simp add: oc_nth w outcomeBox_def createNode_geometry outcomeX_def outcomeSpacing_def
        config_defs del: of_nat_Suc of_nat_add)
  have c4: "\<forall>i < length uos.
          rect_width (ns ! (1 + length ocs + i)) = 200
          \<and> rect_x (ns ! (1 + length ocs + i)) + 200 / 2
              = svg_width sv / of_nat (length uos + 1) * of_nat (i + 1)"
    by (simp add: uo_nth w outputNode_def createNode_geometry outputX_def outputSpacing_def
        config_defs del: of_nat_Suc of_nat_add)
  have c5: "\<forall>i j. i < j \<and> j < length ocs \<longrightarrow>
          rect_x (ns ! (1 + i)) + rect_width (ns ! (1 + i)) < rect_x (ns ! (1 + j))"
  proof (intro allI impI)
    fix i j assume ij: "i < j \<and> j < length ocs"
    then have "i < length ocs" by simp
    then show "rect_x (ns ! (1 + i)) + rect_width (ns ! (1 + i)) < rect_x (ns ! (1 + j))"
      using ij slot_gap [OF osp, of i j]
      by (simp add: oc_nth outcomeBox_def createNode_geometry outcomeX_def config_defs
          del: of_nat_Suc of_nat_add)
  qed
  have c6: "\<forall>i j. i < j \<and> j < length uos \<longrightarrow>
          rect_x (ns ! (1 + length ocs + i)) + rect_width (ns ! (1 + length ocs + i))
            < rect_x (ns ! (1 + length ocs + j))"
  proof (intro allI impI)
    fix i j assume ij: "i < j \<and> j < length uos"
    then have "i < length uos" by simp
    then show "rect_x (ns ! (1 + length ocs + i)) + rect_width (ns ! (1 + length ocs + i))
            < rect_x (ns ! (1 + length ocs + j))"
      using ij slot_gap [OF usp, of i j]
      by (simp add: uo_nth outputNode_def createNode_geometry outputX_def config_defs
          del: of_nat_Suc of_nat_add)
  qed
  from c1 c2 c3 c4 c5 c6 show ?thesis by blast
qed

theorem layout_no_overlap_witness:
  "(0::nat) < 1 \<and> 1 < length (data_outcomes scenario)
   \<and> 1 < length (uniqueOutputs (data_outcomes scenario))
   \<and> rect_x (nodesOf (svg_children (generateSVGVisualization scenario)) ! (1 + 0))
       + rect_width (nodesOf (svg_children (generateSVGVisualization scenario)) ! (1 + 0))
       < rect_x (nodesOf (svg_children (generateSVGVisualization scenario)) ! (1 + 1))
   \<and> rect_x (nodesOf (svg_children (generateSVGVisualization scenario))
               ! (1 + length (data_outcomes scenario) + 0))
       + rect_width (nodesOf (svg_children (generateSVGVisualization scenario))
               ! (1 + length (data_outcomes scenario) + 0))
       < rect_x (nodesOf (svg_children (generateSVGVisualization scenario))
               ! (1 + length (data_outcomes scenario) + 1))
   \<and> rect_width (nodesOf (svg_children (generateSVGVisualization scenario)) ! (1 + 1)) = 200
   \<and> rect_width (nodesOf (svg_children (generateSVGVisualization scenario))
               ! (1 + length (data_outcomes scenario) + 1)) = 200"
proof -
  have h: "(0::nat) < 1 \<and> 1 < length (data_outcomes scenario)
           \<and> 1 < length (uniqueOutputs (data_outcomes scenario))"
    by code_simp
  show ?thesis
    using h layout_no_overlap [of scenario] by blast
qed

section \<open>Document order of connectors and boxes\<close>

lemma paths_then_groups:
  assumes "\<forall>e \<in> set conns. \<not> isGroup e" and "\<forall>e \<in> set boxes. \<not> isPath e"
    and "i < length (conns @ boxes)" and "j < length (conns @ boxes)"
    and "isPath ((conns @ boxes) ! i)" and "isGroup ((conns @ boxes) ! j)"
  shows "i < j"
proof -
  have "i < length conns"
  proof (rule ccontr)
    assume "\<not> i < length conns"
    then have "(conns @ boxes) ! i = boxes ! (i - length conns)" "i - length conns < length boxes"
      using assms(3) by (simp_all add: nth_append)
    then show False using assms(2,5) by (metis nth_mem)
  qed
  moreover have "length conns \<le> j"
  proof (rule ccontr)
    assume "\<not> length conns \<le> j"
    then have "(conns @ boxes) ! j = conns ! j" "j < length conns"
      by (simp_all add: nth_append)
    then show False using assms(1,6) by (metis nth_mem)
  qed
  ultimately show ?thesis by simp
qed

lemma svg_children_split:
  "\<exists>conns boxes. svg_children (generateSVGVisualization data) = conns @ boxes
     \<and> (\<forall>e \<in> set conns. \<not> isGroup e) \<and> (\<forall>e \<in> set boxes. \<not> isPath e)"
proof -
  let ?ocs = "data_outcomes data"
  let ?uos = "uniqueOutputs ?ocs"
  let ?tw = "totalWidth (length ?ocs) (length ?uos)"
  let ?conns = "Title titleText
         # rev (map Path (concat (sharedConnections ?tw (outcomeAnchors ?tw ?ocs) ?uos)))
         @ [Desc (descText (length ?ocs) (length ?uos)), Defs]
         @ map Path (impactConnections ?tw ?ocs)"
  let ?boxes = "Group (impactNode ?tw (impact_statement (data_impact data)))
         # map Group (outcomeBoxes ?tw ?ocs)
         @ map Group (outputBoxes ?tw ?uos)"
  have "svg_children (generateSVGVisualization data) = ?conns @ ?boxes"
    by (simp add: svg_children_closed Let_def)
  moreover have "\<forall>e \<in> set ?conns. \<not> isGroup e" by auto
  moreover have "\<forall>e \<in> set ?boxes. \<not> isPath e" by auto
  ultimately show ?thesis by blast
qed

text \<open>
  C9. In the child list of the generated element every connector path stands before
  every node group, so every connector is painted beneath every box.
\<close>

theorem connectors_before_nodes:
  assumes "i < length (svg_children (generateSVGVisualization data))"
    and "j < length (svg_children (generateSVGVisualization data))"
    and "isPath (svg_children (generateSVGVisualization data) ! i)"
    and "isGroup (svg_children (generateSVGVisualization data) ! j)"
  shows "i < j"
proof -
  obtain conns boxes where
    "svg_children (generateSVGVisualization data) = conns @ boxes"
    "\<forall>e \<in> set conns. \<not> isGroup e" "\<forall>e \<in> set boxes. \<not> isPath e"
    using svg_children_split by blast
  then show ?thesis
    using assms paths_then_groups [of conns boxes i j] by simp
qed

theorem connectors_before_nodes_witness:
  "7 < length (svg_children (generateSVGVisualization scenario))
   \<and> 8 < length (svg_children (generateSVGVisualization scenario))
   \<and> isPath (svg_children (generateSVGVisualization scenario) ! 7)
   \<and> isGroup (svg_children (generateSVGVisualization scenario) ! 8)
   \<and> (7::nat) < 8"
proof -
  have h: "7 < length (svg_children (generateSVGVisualization scenario))
   \<and> 8 < length (svg_children (generateSVGVisualization scenario))
   \<and> isPath (svg_children (generateSVGVisualization scenario) ! 7)
   \<and> isGroup (svg_children (generateSVGVisualization scenario) ! 8)"
    by code_simp
  then show ?thesis
    using connectors_before_nodes [of 7 scenario 8] by blast
qed

section \<open>The impact box\<close>

lemma impactNode_geometry:
  "rect_x (impactNode tw st) = tw / 2 - 100" "rect_width (impactNode tw st) = 300"
  "rect_y (impactNode tw st) = 20" "rect_height (impactNode tw st) = 80"
  by (simp_all add: impactNode_def createNode_geometry impactX_def config_defs)

text \<open>For every snapshot the first box is the impact box; it is 300 wide and its middle
  lies 50 to the right of the middle of the canvas.\<close>

lemma impact_box_general:
  "hd (nodesOf (svg_children (generateSVGVisualization data)))
     = impactNode (svg_width (generateSVGVisualization data)) (impact_statement (data_impact data))
   \<and> rect_width (hd (nodesOf (svg_children (generateSVGVisualization data)))) = 300
   \<and> rect_x (hd (nodesOf (svg_children (generateSVGVisualization data))))
       + rect_width (hd (nodesOf (svg_children (generateSVGVisualization data)))) / 2
     = svg_width (generateSVGVisualization data) / 2 + 50"
  by (simp add: nodesOf_children Let_def svg_width_eq impactNode_geometry)

text \<open>
  C3 at the snapshot without outcomes: the canvas is 1200 wide and the impact box is
  300 wide, 1.5 times 200, but it starts at \<open>x = 500\<close>, which is \<open>impactX - itemWidth / 2\<close>.
  It spans 500 to 800, so its middle, 650, is not the middle of the canvas, 600.
\<close>

theorem impact_box_off_centre:
  "svg_width (generateSVGVisualization noOutcomes) = 1200
   \<and> map (\<lambda>n. (rect_x n, rect_width n)) (nodesOf (svg_children (generateSVGVisualization noOutcomes)))
       = [(500, 300)]
   \<and> (500 + (500 + 300)) / 2 \<noteq> (1200 :: rat) / 2"
  by code_simp

section \<open>The generator on parsed JSON\<close>

text \<open>On the JSON of a snapshot of the data model no read throws, and the generator
  returns the element computed by \<^const>\<open>generateSVGVisualization\<close>.\<close>

lemma bindE_simps [simp]:
  "bindE (Inl e) f = Inl e" "bindE (Inr x) f = f x"
  by (simp_all add: bindE_def)

lemma foldE_total:
  "(\<And>x s. x \<in> set xs \<Longrightarrow> f x s = Inr (g x s)) \<Longrightarrow> foldE f xs s = Inr (fold g xs s)"
  by (induction xs arbitrary: s) simp_all

lemma readProp_toJS_output [simp]:
  "readProp (toJS_output out) ''statement'' = Some (JStr (output_statement out))"
  "readProp (toJS_output out) ''indicators'' = Some (JArr (map toJS_indicator (output_indicators out)))"
  "readProp (toJS_output out) ''id'' = Some (JStr (output_id out))"
  "toJS_output out \<noteq> JNull"
  by (simp_all add: toJS_output_def readProp_def)

lemma readProp_toJS_outcome [simp]:
  "readProp (toJS_outcome oc) ''statement'' = Some (JStr (outcome_statement oc))"
  "readProp (toJS_outcome oc) ''indicators'' = Some (JArr (map toJS_indicator (outcome_indicators oc)))"
  "readProp (toJS_outcome oc) ''id'' = Some (JStr (outcome_id oc))"
  "readProp (toJS_outcome oc) ''outputs'' = Some (JArr (map toJS_output (outcome_outputs oc)))"
  "toJS_outcome oc \<noteq> JNull"
  by (simp_all add: toJS_outcome_def readProp_def)

lemma readProp_toJS [simp]:
  "readProp (toJS data) ''outcomes'' = Some (JArr (map toJS_outcome (data_outcomes data)))"
  "impactStatement (toJS data) = Some (JStr (impact_statement (data_impact data)))"
  "readProp (toJS data) ''version'' = Some (JStr ''1.0'')"
  "toJS data \<noteq> JNull"
  by (simp_all add: toJS_def readProp_def impactStatement_def)

lemma getProp_Some:
  "v \<noteq> JNull \<Longrightarrow> getProp (Some v) name e = Inr (readProp v name)"
  by (cases v) (simp_all add: getProp_def)

lemma map_has_map: "map_has key (map (apsnd h) m) = map_has key m"
  by (simp add: map_has_def comp_def)

lemma pushOutcomeId_map:
  "pushOutcomeId key (f oid) (map (apsnd (map_od f g)) m)
   = map (apsnd (map_od f g)) (pushOutcomeId key oid m)"
  by (induction m) (auto simp: map_od_def)

lemma registerOutput_map:
  "registerOutput key (f oid) (g out) (map (apsnd (map_od f g)) m)
   = map (apsnd (map_od f g)) (registerOutput key oid out m)"
  by (simp add: registerOutput_def map_has_map pushOutcomeId_map map_od_def)

lemma collectOutcome_js_total:
  "collectOutcome_js (k, toJS_outcome oc) (map (apsnd (map_od IdStr toJS_output)) m)
   = Inr (map (apsnd (map_od IdStr toJS_output)) (collectOutcome oc m))"
proof -
  have "foldE (collectOutput_js (IdStr (outcome_id oc))) (map toJS_output outs)
          (map (apsnd (map_od IdStr toJS_output)) m)
        = Inr (map (apsnd (map_od IdStr toJS_output))
            (fold (\<lambda>out. registerOutput (statementKey (output_statement out)) (outcome_id oc) out) outs m))"
    for outs
  proof (induction outs arbitrary: m)
    case Nil
    then show ?case by simp
  next
    case (Cons out outs)
    have "collectOutput_js (IdStr (outcome_id oc)) (toJS_output out)
            (map (apsnd (map_od IdStr toJS_output)) m)
          = Inr (map (apsnd (map_od IdStr toJS_output))
                  (registerOutput (statementKey (output_statement out)) (outcome_id oc) out m))"
      by (simp add: collectOutput_js_def getProp_Some asString_def registerOutput_map)
    then show ?case using Cons.IH by simp
  qed
  then show ?thesis
    by (simp add: collectOutcome_js_def collectOutcome_def getProp_Some asArray_def)
qed

lemma collectOutputs_js_total:
  "collectOutputs_js (map toJS_outcome ocs)
   = Inr (map (apsnd (map_od IdStr toJS_output)) (collectOutputs ocs))"
proof -
  have "foldE collectOutcome_js (enumerate k (map toJS_outcome ocs))
          (map (apsnd (map_od IdStr toJS_output)) m)
        = Inr (map (apsnd (map_od IdStr toJS_output)) (fold collectOutcome ocs m))" for m k
    by (induction ocs arbitrary: m k) (simp_all add: collectOutcome_js_total)
  from this [of 0 "[]"] show ?thesis
    by (simp add: collectOutputs_js_def collectOutputs_def)
qed

lemma outcomeStep_map_on:
  "outcomeStep tw sp ig index (f oid) st n (ch, map (map_on f) ons)
   = apsnd (map (map_on f)) (outcomeStep tw sp ig index oid st n (ch, ons))"
  by (simp add: outcomeStep_def outcomeAnchor_def map_on_def)

lemma outcomes_js_total:
  "foldE (outcomeStep_js tw sp ig) (enumerate k (map toJS_outcome ocs))
     (ch, map (map_on IdStr) ons)
   = Inr (apsnd (map (map_on IdStr))
       (fold (\<lambda>(index, oc). outcomeStep tw sp ig index (outcome_id oc) (outcome_statement oc)
                          (length (outcome_indicators oc))) (enumerate k ocs) (ch, ons)))"
proof (induction ocs arbitrary: k ch ons)
  case Nil
  then show ?case by simp
next
  case (Cons oc ocs)
  obtain ch1 ons1 where step: "outcomeStep tw sp ig k (outcome_id oc) (outcome_statement oc)
                          (length (outcome_indicators oc)) (ch, ons) = (ch1, ons1)"
    by (cases "outcomeStep tw sp ig k (outcome_id oc) (outcome_statement oc)
                          (length (outcome_indicators oc)) (ch, ons)") blast
  have "outcomeStep_js tw sp ig (k, toJS_outcome oc) (ch, map (map_on IdStr) ons)
        = Inr (ch1, map (map_on IdStr) ons1)"
    using outcomeStep_map_on [of tw sp ig k IdStr "outcome_id oc" "outcome_statement oc"
        "length (outcome_indicators oc)" ch ons]
    by (simp add: outcomeStep_js_def textArg_def asString_def countArg_def step)
  then show ?case using Cons.IH [of "Suc k" ch1 ons1] by (simp add: step)
qed

lemma find_map_on:
  "inj f \<Longrightarrow>
   find (\<lambda>n. on_id n = f oid) (map (map_on f) ons)
   = map_option (map_on f) (find (\<lambda>n. on_id n = oid) ons)"
  by (induction ons) (auto simp: map_on_def dest: injD)

lemma connectOutcome_map_on:
  "inj f \<Longrightarrow>
   connectOutcome (map (map_on f) ons) x y sh (f oid) ch = connectOutcome ons x y sh oid ch"
  by (cases "find (\<lambda>n. on_id n = oid) ons")
     (simp_all add: connectOutcome_def find_map_on map_on_def)

lemma outputStep_map_on:
  assumes "inj f"
  shows "outputStep sp (map (map_on f) ons) index st n (map f ids) ch
         = outputStep sp ons index st n ids ch"
proof -
  have "fold (connectOutcome (map (map_on f) ons) x y sh) (map f ids') c
        = fold (connectOutcome ons x y sh) ids' c" for x y sh ids' c
    by (induction ids' arbitrary: c) (simp_all add: connectOutcome_map_on [OF assms])
  then show ?thesis
    by (simp add: outputStep_def outputNode_def outputLabel_def)
qed

lemma outputs_js_total:
  "foldE (outputStep_js sp (map (map_on IdStr) ons))
     (enumerate k (map (map_od IdStr toJS_output) uos)) ch
   = Inr (fold (\<lambda>(index, od). outputStep sp ons index (output_statement (od_output od))
                          (length (output_indicators (od_output od))) (od_outcomeIds od))
           (enumerate k uos) ch)"
proof (induction uos arbitrary: k ch)
  case Nil
  then show ?case by simp
next
  case (Cons od uos)
  have "inj IdStr" by (simp add: inj_def)
  then have "outputStep_js sp (map (map_on IdStr) ons) (k, map_od IdStr toJS_output od) ch
        = Inr (outputStep sp ons k (output_statement (od_output od))
                 (length (output_indicators (od_output od))) (od_outcomeIds od) ch)"
    by (simp add: outputStep_js_def map_od_def textArg_def asString_def countArg_def
        outputStep_map_on)
  then show ?case using Cons.IH [of "Suc k"] by simp
qed

lemma generate_js_total:
  "generateSVGVisualization_js (toJS data) = Inr (generateSVGVisualization data)"
proof -
  let ?ocs = "data_outcomes data"
  let ?uos = "uniqueOutputs ?ocs"
  let ?tw = "totalWidth (length ?ocs) (length ?uos)"
  let ?ig = "Group (impactNode ?tw (impact_statement (data_impact data)))"
  let ?ch0 = "[Title titleText, Desc (descText (length ?ocs) (length ?uos)), Defs, ?ig]"
  let ?mjs = "map (apsnd (map_od IdStr toJS_output)) (collectOutputs ?ocs)"
  have c: "collectOutputs_js (map toJS_outcome ?ocs) = Inr ?mjs"
    by (rule collectOutputs_js_total)
  have len: "length (collectOutputs ?ocs) = length ?uos"
    by (simp add: uniqueOutputs_def)
  have m: "map snd ?mjs = map (map_od IdStr toJS_output) ?uos"
    by (simp add: uniqueOutputs_def comp_def)
  obtain ch ons where l: "outcomesLayer ?tw ?ig ?ocs ?ch0 = (ch, ons)"
    by (cases "outcomesLayer ?tw ?ig ?ocs ?ch0") blast
  have r: "generateSVGVisualization data
           = \<lparr>svg_width = ?tw, svg_height = totalHeight,
              svg_children = outputsLayer ?tw ons ?uos ch\<rparr>"
    by (simp add: generateSVGVisualization_def Let_def l)
  have imp: "getProp (readProp (toJS data) ''impact'') ''statement'' (TypeError ''data.impact.statement'')
             = Inr (Some (JStr (impact_statement (data_impact data))))"
    by (simp add: toJS_def readProp_def getProp_def)
  have o1: "foldE (outcomeStep_js ?tw (?tw / of_nat (length ?ocs + 1)) ?ig)
              (enumerate 0 (map toJS_outcome ?ocs)) (?ch0, [])
            = Inr (ch, map (map_on IdStr) ons)"
    using outcomes_js_total [of ?tw "?tw / of_nat (length ?ocs + 1)" ?ig 0 ?ocs ?ch0 "[]"] l
    by (simp add: outcomesLayer_def)
  have o2: "foldE (outputStep_js (?tw / of_nat (length ?uos + 1)) (map (map_on IdStr) ons))
              (enumerate 0 (map (map_od IdStr toJS_output) ?uos)) ch
            = Inr (outputsLayer ?tw ons ?uos ch)"
    by (simp add: outputs_js_total outputsLayer_def)
  show ?thesis
    unfolding r generateSVGVisualization_js_def
    by (simp only: getProp_Some [OF readProp_toJS(4)] readProp_toJS(1) asArray_def option.case
        json.case bindE_simps length_map c len m imp textArg_def asString_def o1 o2 prod.case)
qed

lemma foldE_ok:
  assumes "\<And>x s. x \<in> set xs \<Longrightarrow> P s \<Longrightarrow> \<exists>s'. f x s = Inr s' \<and> P s'" and "P s"
  shows "\<exists>s'. foldE f xs s = Inr s' \<and> P s'"
  using assms
proof (induction xs arbitrary: s)
  case Nil
  then show ?case by simp
next
  case (Cons x xs)
  obtain s1 where s1: "f x s = Inr s1" "P s1"
    using Cons.prems(1) [of x s] Cons.prems(2) by auto
  have "\<exists>s'. foldE f xs s1 = Inr s' \<and> P s'"
    using Cons.IH [of s1] Cons.prems(1) s1(2) by simp
  then show ?case using s1(1) by simp
qed

lemma foldE_Inl:
  "foldE f xs s = Inl e \<Longrightarrow> \<exists>x \<in> set xs. \<exists>s'. f x s' = Inl e"
proof (induction xs arbitrary: s)
  case Nil
  then show ?case by simp
next
  case (Cons x xs)
  then show ?case by (cases "f x s") auto
qed

lemma snd_in_enumerate: "x \<in> set (enumerate k xs) \<Longrightarrow> snd x \<in> set xs"
  by (metis imageI list.set_map map_snd_enumerate)

lemma readProp_Some_not_null: "readProp v name = Some w \<Longrightarrow> v \<noteq> JNull"
  by (auto simp: readProp_def)

lemma isString_iff: "isString v = (\<exists>s. v = Some (JStr s))"
  by (auto simp: isString_def split: option.splits json.splits)

lemma isArray_iff: "isArray v = (\<exists>xs. v = Some (JArr xs))"
  by (auto simp: isArray_def split: option.splits json.splits)

subsection \<open>Only type errors before the impact box\<close>

lemma collectOutput_js_Inl:
  assumes "collectOutput_js oid out m = Inl e"
  shows "e = TypeError ''output.statement.trim''"
proof (cases "getProp (Some out) ''statement'' (TypeError ''output.statement.trim'')")
  case (Inl e1)
  then have "e1 = TypeError ''output.statement.trim''"
    by (cases out) (simp_all add: getProp_def)
  then show ?thesis using assms Inl by (simp add: collectOutput_js_def bindE_def)
next
  case (Inr v)
  show ?thesis
  proof (cases "asString v (TypeError ''output.statement.trim'')")
    case (Inl e1)
    then have "e1 = TypeError ''output.statement.trim''"
      by (simp add: asString_def split: option.splits json.splits)
    then show ?thesis using assms Inr Inl by (simp add: collectOutput_js_def bindE_def)
  next
    case (Inr s)
    then show ?thesis
      using assms \<open>getProp (Some out) ''statement'' (TypeError ''output.statement.trim'') = Inr v\<close>
      by (simp add: collectOutput_js_def bindE_def)
  qed
qed

lemma collectOutcome_js_Inl:
  assumes "collectOutcome_js x m = Inl e"
  shows "\<exists>msg. e = TypeError msg"
proof -
  obtain k oc where x: "x = (k, oc)" by (cases x)
  show ?thesis
  proof (cases "getProp (Some oc) ''outputs'' (TypeError ''outcome.outputs.forEach'')")
    case (Inl e1)
    then have "e1 = TypeError ''outcome.outputs.forEach''"
      by (cases oc) (simp_all add: getProp_def)
    then show ?thesis
      using assms x Inl by (auto simp: collectOutcome_js_def bindE_def)
  next
    case (Inr v)
    show ?thesis
    proof (cases "asArray v (TypeError ''outcome.outputs.forEach'')")
      case (Inl e1)
      then have "e1 = TypeError ''outcome.outputs.forEach''"
        by (simp add: asArray_def split: option.splits json.splits)
      then show ?thesis
        using assms x Inl \<open>getProp (Some oc) ''outputs'' (TypeError ''outcome.outputs.forEach'') = Inr v\<close>
        by (auto simp: collectOutcome_js_def bindE_def)
    next
      case (Inr outs)
      then have "foldE (collectOutput_js (idOf k (readProp oc ''id''))) outs m = Inl e"
        using assms x \<open>getProp (Some oc) ''outputs'' (TypeError ''outcome.outputs.forEach'') = Inr v\<close>
        by (simp add: collectOutcome_js_def bindE_def)
      then obtain out m' where "collectOutput_js (idOf k (readProp oc ''id'')) out m' = Inl e"
        using foldE_Inl [of "collectOutput_js (idOf k (readProp oc ''id''))" outs m e] by auto
      then have "e = TypeError ''output.statement.trim''"
        by (rule collectOutput_js_Inl)
      then show ?thesis by simp
    qed
  qed
qed

lemma collectOutputs_js_Inl:
  assumes "collectOutputs_js ocs = Inl e"
  shows "\<exists>msg. e = TypeError msg"
proof -
  obtain x m where "collectOutcome_js x m = Inl e"
    using assms foldE_Inl [of collectOutcome_js "enumerate 0 ocs" "[]" e]
    by (auto simp: collectOutputs_js_def)
  then show ?thesis by (rule collectOutcome_js_Inl)
qed

subsection \<open>Snapshots that lack a field\<close>

lemma no_outcomes_array:
  assumes "\<not> isArray (readProp d ''outcomes'')"
  shows "generateSVGVisualization_js d = Inl (TypeError ''data.outcomes.forEach'')"
proof (cases "d = JNull")
  case True
  then show ?thesis by (simp add: generateSVGVisualization_js_def getProp_def)
next
  case False
  have "asArray (readProp d ''outcomes'') (TypeError ''data.outcomes.forEach'')
        = Inl (TypeError ''data.outcomes.forEach'')"
    using assms
    by (cases "readProp d ''outcomes''"; cases "the (readProp d ''outcomes'')")
       (simp_all add: asArray_def isArray_def)
  then show ?thesis
    using False by (simp add: generateSVGVisualization_js_def getProp_Some)
qed

lemma dedup_error_first:
  assumes "readProp d ''outcomes'' = Some (JArr ocs)" and "collectOutputs_js ocs = Inl e"
  shows "generateSVGVisualization_js d = Inl e"
  using assms readProp_Some_not_null [OF assms(1)]
  by (simp add: generateSVGVisualization_js_def getProp_Some asArray_def)

lemma no_impact_statement:
  assumes "readProp d ''outcomes'' = Some (JArr ocs)" and "collectOutputs_js ocs = Inr m"
    and "impactStatement d = None"
  shows "generateSVGVisualization_js d = Inl (TypeError ''data.impact.statement'')
         \<or> generateSVGVisualization_js d = Inl (TypeError ''createNode: text'')"
proof -
  have "getProp (readProp d ''impact'') ''statement'' (TypeError ''data.impact.statement'')
          = Inl (TypeError ''data.impact.statement'')
        \<or> getProp (readProp d ''impact'') ''statement'' (TypeError ''data.impact.statement'')
          = Inr None"
    using assms(3)
    by (cases "readProp d ''impact''"; cases "the (readProp d ''impact'')")
       (simp_all add: impactStatement_def getProp_def)
  then show ?thesis
    using assms(1,2) readProp_Some_not_null [OF assms(1)]
    by (auto simp: generateSVGVisualization_js_def getProp_Some asArray_def textArg_def
        asString_def)
qed

lemma malformed_raises:
  assumes "malformed d"
  shows "\<exists>msg. generateSVGVisualization_js d = Inl (TypeError msg)"
proof (cases "isArray (readProp d ''outcomes'')")
  case False
  then show ?thesis using no_outcomes_array by blast
next
  case True
  then obtain ocs where ocs: "readProp d ''outcomes'' = Some (JArr ocs)"
    by (auto simp: isArray_iff)
  have imp: "impactStatement d = None"
    using assms True by (simp add: malformed_def)
  show ?thesis
  proof (cases "collectOutputs_js ocs")
    case (Inl e)
    then show ?thesis
      using dedup_error_first [OF ocs Inl] collectOutputs_js_Inl [OF Inl] by auto
  next
    case (Inr m)
    then show ?thesis using no_impact_statement [OF ocs Inr imp] by blast
  qed
qed

lemma malformed_invalid:
  assumes "malformed d"
  shows "isValidData d = Inr False"
proof (cases "isArray (readProp d ''outcomes'')")
  case False
  then have "(case readProp d ''outcomes'' of Some (JArr ocs) \<Rightarrow> validOutcomes ocs | _ \<Rightarrow> Inr False)
             = Inr False"
    by (cases "readProp d ''outcomes''"; cases "the (readProp d ''outcomes'')")
       (simp_all add: isArray_def)
  then show ?thesis by (simp add: isValidData_def)
next
  case True
  then have "impactStatement d = None" using assms by (simp add: malformed_def)
  then show ?thesis by (simp add: isValidData_def)
qed

lemma pushOutcomeId_outputs:
  "map (\<lambda>p. od_output (snd p)) (pushOutcomeId key oid m) = map (\<lambda>p. od_output (snd p)) m"
  by (induction m) auto

lemma outputsAll_iff: "outputsAll P m = list_all P (map (\<lambda>p. od_output (snd p)) m)"
  by (simp add: outputsAll_def list_all_iff)

lemma outputsAll_register:
  "outputsAll P m \<Longrightarrow> P out \<Longrightarrow> outputsAll P (registerOutput key oid out m)"
  by (simp add: registerOutput_def outputsAll_iff pushOutcomeId_outputs)

subsection \<open>Snapshots with the types of the data model\<close>

lemma wellTypedOutput_reads:
  assumes "wellTypedOutput out"
  shows "\<exists>s xs. readProp out ''statement'' = Some (JStr s)
               \<and> readProp out ''indicators'' = Some (JArr xs) \<and> out \<noteq> JNull"
  using assms readProp_Some_not_null [of out "''statement''"]
  by (auto simp: wellTypedOutput_def isString_iff isArray_iff)

lemma collectOutput_js_ok:
  assumes "wellTypedOutput out" and "outputsAll wellTypedOutput m"
  shows "\<exists>m'. collectOutput_js oid out m = Inr m' \<and> outputsAll wellTypedOutput m'"
proof -
  obtain s where "readProp out ''statement'' = Some (JStr s)" "out \<noteq> JNull"
    using wellTypedOutput_reads [OF assms(1)] by auto
  then have "collectOutput_js oid out m = Inr (registerOutput (statementKey s) oid out m)"
    by (simp add: collectOutput_js_def getProp_Some asString_def)
  then show ?thesis using outputsAll_register [OF assms(2,1)] by simp
qed

lemma collectOutcome_js_ok:
  assumes "wellTypedOutcome (snd x)" and "outputsAll wellTypedOutput m"
  shows "\<exists>m'. collectOutcome_js x m = Inr m' \<and> outputsAll wellTypedOutput m'"
proof -
  obtain k oc where x: "x = (k, oc)" by (cases x)
  obtain outs where outs: "readProp oc ''outputs'' = Some (JArr outs)"
      "list_all wellTypedOutput outs"
    using assms(1) x
    by (auto simp: wellTypedOutcome_def split: option.splits json.splits)
  have "\<exists>m'. foldE (collectOutput_js (idOf k (readProp oc ''id''))) outs m = Inr m' \<and> outputsAll wellTypedOutput m'"
    using outs(2) assms(2)
    by (intro foldE_ok) (auto simp: list_all_iff intro: collectOutput_js_ok)
  then show ?thesis
    using x outs(1) readProp_Some_not_null [OF outs(1)]
    by (simp add: collectOutcome_js_def getProp_Some asArray_def)
qed

lemma collectOutputs_js_ok:
  assumes "list_all wellTypedOutcome ocs"
  shows "\<exists>m. collectOutputs_js ocs = Inr m \<and> outputsAll wellTypedOutput m"
  unfolding collectOutputs_js_def
proof (rule foldE_ok)
  show "outputsAll wellTypedOutput []" by (simp add: outputsAll_def)
  fix x and s :: "(jsid, json) outputsMap"
  assume "x \<in> set (enumerate 0 ocs)" and s: "outputsAll wellTypedOutput s"
  then have "wellTypedOutcome (snd x)"
    using assms snd_in_enumerate [of x 0 ocs] by (simp add: list_all_iff)
  then show "\<exists>s'. collectOutcome_js x s = Inr s' \<and> outputsAll wellTypedOutput s'"
    using s by (rule collectOutcome_js_ok)
qed

lemma outcomeStep_js_ok:
  assumes "wellTypedOutcome (snd x)"
  shows "\<exists>st'. outcomeStep_js tw sp ig x st = Inr st'"
proof -
  obtain k oc where x: "x = (k, oc)" by (cases x)
  obtain s xs where "readProp oc ''statement'' = Some (JStr s)"
      "readProp oc ''indicators'' = Some (JArr xs)"
    using assms x by (auto simp: wellTypedOutcome_def isString_iff isArray_iff)
  then show ?thesis
    using x by (simp add: outcomeStep_js_def textArg_def asString_def countArg_def)
qed

lemma outputStep_js_ok:
  assumes "wellTypedOutput (od_output (snd x))"
  shows "\<exists>ch'. outputStep_js sp ons x ch = Inr ch'"
proof -
  obtain k od where x: "x = (k, od)" by (cases x)
  obtain s xs where "readProp (od_output od) ''statement'' = Some (JStr s)"
      "readProp (od_output od) ''indicators'' = Some (JArr xs)"
    using wellTypedOutput_reads [OF assms] x by auto
  then show ?thesis
    using x by (simp add: outputStep_js_def textArg_def asString_def countArg_def)
qed

lemma wellTyped_returns:
  assumes "wellTyped d"
  shows "\<exists>sv. generateSVGVisualization_js d = Inr sv"
proof -
  obtain ocs where ocs: "readProp d ''outcomes'' = Some (JArr ocs)" "list_all wellTypedOutcome ocs"
    using assms by (auto simp: wellTyped_def split: option.splits json.splits)
  obtain s where s: "impactStatement d = Some (JStr s)"
    using assms by (auto simp: wellTyped_def isString_iff)
  obtain m where m: "collectOutputs_js ocs = Inr m" "outputsAll wellTypedOutput m"
    using collectOutputs_js_ok [OF ocs(2)] by auto
  have imp: "getProp (readProp d ''impact'') ''statement'' (TypeError ''data.impact.statement'')
             = Inr (Some (JStr s))"
  proof (cases "readProp d ''impact''")
    case None
    then show ?thesis using s by (simp add: impactStatement_def)
  next
    case (Some imp)
    then have "readProp imp ''statement'' = Some (JStr s)"
      using s by (simp add: impactStatement_def)
    then show ?thesis
      using Some readProp_Some_not_null [of imp "''statement''"] by (simp add: getProp_Some)
  qed
  let ?tw = "totalWidth (length ocs) (length m)"
  let ?ig = "Group (impactNode ?tw s)"
  have "\<exists>st'. foldE (outcomeStep_js ?tw (?tw / of_nat (length ocs + 1)) ?ig) (enumerate 0 ocs)
           ([Title titleText, Desc (descText (length ocs) (length m)), Defs, ?ig], []) = Inr st'
         \<and> True"
  proof (rule foldE_ok)
    fix x and st :: "element list \<times> jsid outcomeNode list"
    assume "x \<in> set (enumerate 0 ocs)"
    then have "wellTypedOutcome (snd x)"
      using ocs(2) snd_in_enumerate [of x 0 ocs] by (simp add: list_all_iff)
    then show "\<exists>s'. outcomeStep_js ?tw (?tw / of_nat (length ocs + 1)) ?ig x st = Inr s' \<and> True"
      using outcomeStep_js_ok by simp
  qed simp
  then obtain ch1 ons where o1:
    "foldE (outcomeStep_js ?tw (?tw / of_nat (length ocs + 1)) ?ig) (enumerate 0 ocs)
           ([Title titleText, Desc (descText (length ocs) (length m)), Defs, ?ig], []) = Inr (ch1, ons)"
    by auto
  have "\<exists>ch'. foldE (outputStep_js (?tw / of_nat (length m + 1)) ons) (enumerate 0 (map snd m)) ch1
           = Inr ch' \<and> True"
  proof (rule foldE_ok)
    fix x and ch :: "element list"
    assume "x \<in> set (enumerate 0 (map snd m))"
    then have "snd x \<in> set (map snd m)" by (rule snd_in_enumerate)
    then have "wellTypedOutput (od_output (snd x))"
      using m(2) by (auto simp: outputsAll_def)
    then show "\<exists>s'. outputStep_js (?tw / of_nat (length m + 1)) ons x ch = Inr s' \<and> True"
      using outputStep_js_ok by simp
  qed simp
  then obtain ch2 where o2:
    "foldE (outputStep_js (?tw / of_nat (length m + 1)) ons) (enumerate 0 (map snd m)) ch1 = Inr ch2"
    by auto
  show ?thesis
    using readProp_Some_not_null [OF ocs(1)]
    by (simp add: generateSVGVisualization_js_def getProp_Some ocs(1) asArray_def m(1) imp
        textArg_def asString_def o1 [simplified] o2 [simplified])
qed


subsection \<open>Validated snapshots never reach the runtime's conversions\<close>

text \<open>A snapshot that \<^verbatim>\<open>isValidData\<close> accepts has an array as every \<^verbatim>\<open>indicators\<close>,
  so whenever the generator does not return on it, it is a \<^verbatim>\<open>TypeError\<close> that it
  throws.\<close>

lemma foldE_inv:
  assumes "\<And>x s s'. x \<in> set xs \<Longrightarrow> I s \<Longrightarrow> f x s = Inr s' \<Longrightarrow> I s'"
    and "I s" and "foldE f xs s = Inr s'"
  shows "I s'"
  using assms
proof (induction xs arbitrary: s)
  case Nil
  then show ?case by simp
next
  case (Cons x xs)
  obtain s1 where s1: "f x s = Inr s1"
    using Cons.prems(3) by (cases "f x s") simp_all
  have i1: "I s1" using Cons.prems(1) [of x s s1] Cons.prems(2) s1 by simp
  have f1: "foldE f xs s1 = Inr s'" using Cons.prems(3) s1 by simp
  show ?case
  proof (rule Cons.IH [of s1])
    show "I s1" by (rule i1)
    show "foldE f xs s1 = Inr s'" by (rule f1)
    fix y t t'
    assume "y \<in> set xs" "I t" "f y t = Inr t'"
    then show "I t'" using Cons.prems(1) [of y t t'] by simp
  qed
qed

lemma validOutputs_True:
  "validOutputs outs = Inr True \<Longrightarrow> list_all arrayIndicators outs"
  by (induction outs) (auto simp: arrayIndicators_def split: if_splits)

lemma validOutcomes_True:
  assumes "validOutcomes ocs = Inr True" and "oc \<in> set ocs"
  shows "arrayIndicators oc
         \<and> (\<forall>outs. readProp oc ''outputs'' = Some (JArr outs) \<longrightarrow> list_all arrayIndicators outs)"
  using assms
proof (induction ocs)
  case Nil
  then show ?case by simp
next
  case (Cons a ocs)
  from Cons.prems(1) have a: "arrayIndicators a" "isArray (readProp a ''outputs'')"
    by (auto simp: arrayIndicators_def split: if_splits)
  then obtain outs where outs: "readProp a ''outputs'' = Some (JArr outs)"
    by (auto simp: isArray_iff)
  from Cons.prems(1) outs have v: "validOutputs outs = Inr True" "validOutcomes ocs = Inr True"
    by (auto split: if_splits sum.splits)
  show ?case
  proof (cases "oc = a")
    case True
    then show ?thesis using a(1) outs validOutputs_True [OF v(1)] by simp
  next
    case False
    then show ?thesis using Cons.IH [OF v(2)] Cons.prems(2) by simp
  qed
qed

lemma collectOutput_js_inv:
  assumes "P out" and "outputsAll P m" and "collectOutput_js oid out m = Inr m'"
  shows "outputsAll P m'"
proof -
  obtain s where "m' = registerOutput (statementKey s) oid out m"
    using assms(3)
    by (auto simp: collectOutput_js_def bindE_def split: sum.splits)
  then show ?thesis using outputsAll_register [OF assms(2,1)] by simp
qed

lemma collectOutcome_js_inv:
  assumes "\<forall>outs. readProp (snd x) ''outputs'' = Some (JArr outs) \<longrightarrow> list_all P outs"
    and "outputsAll P m" and "collectOutcome_js x m = Inr m'"
  shows "outputsAll P m'"
proof -
  obtain k oc where x: "x = (k, oc)" by (cases x)
  obtain v outs where r: "getProp (Some oc) ''outputs'' (TypeError ''outcome.outputs.forEach'') = Inr v"
      "asArray v (TypeError ''outcome.outputs.forEach'') = Inr outs"
      "foldE (collectOutput_js (idOf k (readProp oc ''id''))) outs m = Inr m'"
    using assms(3) x by (auto simp: collectOutcome_js_def bindE_def split: sum.splits)
  have "v = Some (JArr outs)"
    using r(2) by (auto simp: asArray_def split: option.splits json.splits)
  moreover have "v = readProp oc ''outputs''"
    using r(1) by (cases oc) (simp_all add: getProp_def)
  ultimately have "list_all P outs" using assms(1) x by simp
  then show ?thesis
    using foldE_inv [of outs "outputsAll P" "collectOutput_js (idOf k (readProp oc ''id''))" m m']
      assms(2) r(3) collectOutput_js_inv [of P]
    by (simp add: list_all_iff) blast
qed

lemma step_js_Inl:
  assumes "isArray indicators"
    and "bindE (readLength indicators e0) (\<lambda>c. bindE (textArg statement) (\<lambda>s. bindE (countArg c) (f s)))
         = Inl e"
    and "\<And>s n. \<exists>r. f s n = Inr r"
  shows "e = TypeError ''createNode: text''"
proof -
  obtain xs where "indicators = Some (JArr xs)" using assms(1) by (auto simp: isArray_iff)
  then have b: "bindE (textArg statement) (\<lambda>s. f s (length xs)) = Inl e"
    using assms(2) by (simp add: countArg_def)
  show ?thesis
  proof (cases "textArg statement")
    case (Inl e1)
    then have "e1 = TypeError ''createNode: text''"
      by (simp add: textArg_def asString_def split: option.splits json.splits)
    then show ?thesis using b Inl by auto
  next
    case (Inr s)
    obtain r where "f s (length xs) = Inr r" using assms(3) [of s "length xs"] by auto
    then show ?thesis using b Inr by simp
  qed
qed

lemma valid_only_type_errors:
  assumes "isValidData d = Inr True" and "generateSVGVisualization_js d = Inl e"
  shows "\<exists>msg. e = TypeError msg"
proof -
  have nm: "\<not> malformed d"
    using assms(1) malformed_invalid [of d] by auto
  then obtain ocs where ocs: "readProp d ''outcomes'' = Some (JArr ocs)"
    by (auto simp: malformed_def isArray_iff)
  have v: "validOutcomes ocs = Inr True"
    using assms(1) ocs by (auto simp: isValidData_def split: if_splits)
  show ?thesis
  proof (cases "collectOutputs_js ocs")
    case (Inl e1)
    then show ?thesis
      using dedup_error_first [OF ocs Inl] collectOutputs_js_Inl [OF Inl] assms(2) by simp
  next
    case (Inr m)
    have inv: "outputsAll arrayIndicators m"
    proof (rule foldE_inv [of "enumerate 0 ocs" "outputsAll arrayIndicators" collectOutcome_js "[]" m])
      show "outputsAll arrayIndicators []" by (simp add: outputsAll_def)
      show "foldE collectOutcome_js (enumerate 0 ocs) [] = Inr m"
        using Inr by (simp add: collectOutputs_js_def)
      fix x and s s' :: "(jsid, json) outputsMap"
      assume x: "x \<in> set (enumerate 0 ocs)" and s: "outputsAll arrayIndicators s"
        and c: "collectOutcome_js x s = Inr s'"
      have "\<forall>outs. readProp (snd x) ''outputs'' = Some (JArr outs) \<longrightarrow> list_all arrayIndicators outs"
        using validOutcomes_True [OF v snd_in_enumerate [OF x]] by simp
      then show "outputsAll arrayIndicators s'" using s c by (rule collectOutcome_js_inv)
    qed
    let ?tw = "totalWidth (length ocs) (length m)"
    have g: "generateSVGVisualization_js d =
      bindE (getProp (readProp d ''impact'') ''statement'' (TypeError ''data.impact.statement''))
       (\<lambda>impactStatement.
     bindE (textArg impactStatement) (\<lambda>statement.
     bindE (foldE
              (outcomeStep_js ?tw (?tw / of_nat (length ocs + 1)) (Group (impactNode ?tw statement)))
              (enumerate 0 ocs)
              ([Title titleText, Desc (descText (length ocs) (length m)), Defs,
                Group (impactNode ?tw statement)], []))
       (\<lambda>(children1, outcomeNodes).
     bindE (foldE (outputStep_js (?tw / of_nat (length m + 1)) outcomeNodes)
              (enumerate 0 (map snd m)) children1)
       (\<lambda>children2.
     Inr \<lparr>svg_width = ?tw, svg_height = totalHeight, svg_children = children2\<rparr>))))"
      using readProp_Some_not_null [OF ocs]
      by (simp add: generateSVGVisualization_js_def getProp_Some ocs asArray_def Inr
          del: of_nat_add of_nat_Suc)
    have oc_step: "\<exists>msg. e' = TypeError msg"
      if "x \<in> set (enumerate 0 ocs)" "outcomeStep_js tw sp ig x st = Inl e'" for x tw sp ig st e'
    proof -
      obtain k oc where xk: "x = (k, oc)" by (cases x)
      have "arrayIndicators oc"
        using validOutcomes_True [OF v snd_in_enumerate [OF that(1)]] xk by simp
      then have "e' = TypeError ''createNode: text''"
        using that(2) xk
        by (intro step_js_Inl [of "readProp oc ''indicators''" _ "readProp oc ''statement''"
              "\<lambda>s n. Inr (outcomeStep tw sp ig k (idOf k (readProp oc ''id'')) s n st)"])
           (simp_all add: arrayIndicators_def outcomeStep_js_def)
      then show ?thesis by simp
    qed
    have out_step: "\<exists>msg. e' = TypeError msg"
      if "x \<in> set (enumerate 0 (map snd m))" "outputStep_js sp ons x ch = Inl e'" for x sp ons ch e'
    proof -
      obtain k od where xk: "x = (k, od)" by (cases x)
      have "od \<in> set (map snd m)" using snd_in_enumerate [OF that(1)] xk by simp
      then have "arrayIndicators (od_output od)"
        using inv by (auto simp: outputsAll_def)
      then have "e' = TypeError ''createNode: text''"
        using that(2) xk
        by (intro step_js_Inl [of "readProp (od_output od) ''indicators''" _
              "readProp (od_output od) ''statement''"
              "\<lambda>s n. Inr (outputStep sp ons k s n (od_outcomeIds od) ch)"])
           (simp_all add: arrayIndicators_def outputStep_js_def)
      then show ?thesis by simp
    qed
    show ?thesis
    proof (cases "getProp (readProp d ''impact'') ''statement'' (TypeError ''data.impact.statement'')")
      case (Inl e1)
      then have "e1 = TypeError ''data.impact.statement''"
        by (cases "readProp d ''impact''"; cases "the (readProp d ''impact'')")
           (simp_all add: getProp_def)
      then show ?thesis using assms(2) g Inl by auto
    next
      case r1: (Inr stv)
      show ?thesis
      proof (cases "textArg stv")
        case (Inl e1)
        then have "e1 = TypeError ''createNode: text''"
          by (simp add: textArg_def asString_def split: option.splits json.splits)
        then show ?thesis using assms(2) g r1 Inl by auto
      next
        case r2: (Inr s)
        let ?ig = "Group (impactNode ?tw s)"
        show ?thesis
        proof (cases "foldE (outcomeStep_js ?tw (?tw / of_nat (length ocs + 1)) ?ig)
              (enumerate 0 ocs)
              ([Title titleText, Desc (descText (length ocs) (length m)), Defs, ?ig], [])")
          case (Inl e1)
          then have "e = e1" using assms(2) g r1 r2 by simp
          then show ?thesis using foldE_Inl [OF Inl] oc_step by blast
        next
          case r3: (Inr st)
          obtain ch1 ons where st: "st = (ch1, ons)" by (cases st)
          show ?thesis
          proof (cases "foldE (outputStep_js (?tw / of_nat (length m + 1)) ons)
              (enumerate 0 (map snd m)) ch1")
            case (Inl e1)
            then have "e = e1" using assms(2) g r1 r2 r3 st by simp
            then show ?thesis using foldE_Inl [OF Inl] out_step by blast
          next
            case (Inr ch2)
            then show ?thesis using assms(2) g r1 r2 r3 st by simp
          qed
        qed
      qed
    qed
  qed
qed

subsection \<open>The claim about malformed snapshots\<close>

text \<open>
  C7, as the code has it. The generator validates nothing itself. A snapshot whose
  \<^verbatim>\<open>outcomes\<close> is not an array or whose \<^verbatim>\<open>impact.statement\<close> is missing makes it
  throw a \<^verbatim>\<open>TypeError\<close>, which reaches the caller instead of a scene, and
  \<^verbatim>\<open>isValidData\<close> returns false for such a snapshot. Without an \<^verbatim>\<open>outcomes\<close> array
  the throw is at the first statement. Otherwise the outputs are collected first: an
  exception of that loop is the one that propagates, and a missing
  \<^verbatim>\<open>impact.statement\<close> is only met after the loop has finished. A snapshot in which
  every statement is a string and \<^verbatim>\<open>outcomes\<close>, every \<^verbatim>\<open>outputs\<close> and every
  \<^verbatim>\<open>indicators\<close> is an array yields a scene, whatever its ids, its version and its
  other properties are; on the JSON of a snapshot of the data model that scene is the
  one \<^const>\<open>generateSVGVisualization\<close> computes.
\<close>

theorem malformed_snapshot:
  "(malformed d \<longrightarrow>
      (\<exists>msg. generateSVGVisualization_js d = Inl (TypeError msg)) \<and> isValidData d = Inr False)
   \<and> (\<not> isArray (readProp d ''outcomes'') \<longrightarrow>
        generateSVGVisualization_js d = Inl (TypeError ''data.outcomes.forEach''))
   \<and> (\<forall>ocs e. readProp d ''outcomes'' = Some (JArr ocs) \<and> collectOutputs_js ocs = Inl e \<longrightarrow>
        generateSVGVisualization_js d = Inl e)
   \<and> (\<forall>ocs m. readProp d ''outcomes'' = Some (JArr ocs) \<and> collectOutputs_js ocs = Inr m
                \<and> impactStatement d = None \<longrightarrow>
        generateSVGVisualization_js d = Inl (TypeError ''data.impact.statement'')
        \<or> generateSVGVisualization_js d = Inl (TypeError ''createNode: text''))
   \<and> (wellTyped d \<longrightarrow> (\<exists>sv. generateSVGVisualization_js d = Inr sv))
   \<and> generateSVGVisualization_js (toJS data) = Inr (generateSVGVisualization data)"
proof -
  have a: "malformed d \<longrightarrow>
      (\<exists>msg. generateSVGVisualization_js d = Inl (TypeError msg)) \<and> isValidData d = Inr False"
    using malformed_raises malformed_invalid by blast
  have b: "\<not> isArray (readProp d ''outcomes'') \<longrightarrow>
        generateSVGVisualization_js d = Inl (TypeError ''data.outcomes.forEach'')"
    using no_outcomes_array by blast
  have c: "\<forall>ocs e. readProp d ''outcomes'' = Some (JArr ocs) \<and> collectOutputs_js ocs = Inl e \<longrightarrow>
        generateSVGVisualization_js d = Inl e"
    using dedup_error_first by blast
  have e: "\<forall>ocs m. readProp d ''outcomes'' = Some (JArr ocs) \<and> collectOutputs_js ocs = Inr m
                \<and> impactStatement d = None \<longrightarrow>
        generateSVGVisualization_js d = Inl (TypeError ''data.impact.statement'')
        \<or> generateSVGVisualization_js d = Inl (TypeError ''createNode: text'')"
    using no_impact_statement by blast
  have f: "wellTyped d \<longrightarrow> (\<exists>sv. generateSVGVisualization_js d = Inr sv)"
    using wellTyped_returns by blast
  from a b c e f generate_js_total show ?thesis by blast
qed

theorem malformed_snapshot_witness:
  "malformed js_noOutcomesField \<and> \<not> isArray (readProp js_noOutcomesField ''outcomes'')
   \<and> generateSVGVisualization_js js_noOutcomesField = Inl (TypeError ''data.outcomes.forEach'')
   \<and> isValidData js_noOutcomesField = Inr False
   \<and> readProp js_noImpactNoOutputs ''outcomes'' = Some (JArr [js_outcomeA []])
   \<and> collectOutputs_js [js_outcomeA []] = Inl (TypeError ''outcome.outputs.forEach'')
   \<and> generateSVGVisualization_js js_noImpactNoOutputs = Inl (TypeError ''outcome.outputs.forEach'')
   \<and> malformed js_noImpact \<and> impactStatement js_noImpact = None
   \<and> collectOutputs_js [js_outcomeA [(''outputs'', JArr
              [JObj [(''id'', JStr ''o1''), (''statement'', JStr ''Publish guide''),
                     (''indicators'', JArr [])]])]]
      = Inr [(''publish guide'',
              \<lparr>od_output = JObj [(''id'', JStr ''o1''), (''statement'', JStr ''Publish guide''),
                                 (''indicators'', JArr [])],
               od_outcomeIds = [IdStr ''A'']\<rparr>)]
   \<and> (generateSVGVisualization_js js_noImpact = Inl (TypeError ''data.impact.statement'')
      \<or> generateSVGVisualization_js js_noImpact = Inl (TypeError ''createNode: text''))
   \<and> wellTyped js_typedOnly \<and> (\<exists>sv. generateSVGVisualization_js js_typedOnly = Inr sv)"
proof -
  have h1: "malformed js_noOutcomesField \<and> \<not> isArray (readProp js_noOutcomesField ''outcomes'')"
    by code_simp
  have h2: "readProp js_noImpactNoOutputs ''outcomes'' = Some (JArr [js_outcomeA []])
   \<and> collectOutputs_js [js_outcomeA []] = Inl (TypeError ''outcome.outputs.forEach'')"
    by code_simp
  have h3: "malformed js_noImpact \<and> impactStatement js_noImpact = None" by code_simp
  have h4: "readProp js_noImpact ''outcomes'' = Some (JArr [js_outcomeA [(''outputs'', JArr
              [JObj [(''id'', JStr ''o1''), (''statement'', JStr ''Publish guide''),
                     (''indicators'', JArr [])]])]])
    \<and> collectOutputs_js [js_outcomeA [(''outputs'', JArr
              [JObj [(''id'', JStr ''o1''), (''statement'', JStr ''Publish guide''),
                     (''indicators'', JArr [])]])]]
      = Inr [(''publish guide'',
              \<lparr>od_output = JObj [(''id'', JStr ''o1''), (''statement'', JStr ''Publish guide''),
                                 (''indicators'', JArr [])],
               od_outcomeIds = [IdStr ''A'']\<rparr>)]"
    by code_simp
  have h5: "wellTyped js_typedOnly" by code_simp
  have w1: "generateSVGVisualization_js js_noOutcomesField = Inl (TypeError ''data.outcomes.forEach'')
            \<and> isValidData js_noOutcomesField = Inr False"
    using h1 malformed_snapshot [of js_noOutcomesField] by simp
  have w2: "generateSVGVisualization_js js_noImpactNoOutputs
            = Inl (TypeError ''outcome.outputs.forEach'')"
    using h2 malformed_snapshot [of js_noImpactNoOutputs] by simp
  have w3: "generateSVGVisualization_js js_noImpact = Inl (TypeError ''data.impact.statement'')
      \<or> generateSVGVisualization_js js_noImpact = Inl (TypeError ''createNode: text'')"
    using h3 h4 malformed_snapshot [of js_noImpact] by simp
  have w4: "\<exists>sv. generateSVGVisualization_js js_typedOnly = Inr sv"
    using h5 malformed_snapshot [of js_typedOnly] by simp
  show ?thesis
    using h1 h2 h3 h4 h5 w1 w2 w3 w4 by simp
qed

text \<open>
  C7 as the specification words it fails in both halves. A snapshot that has
  \<^verbatim>\<open>impact.statement\<close> and an \<^verbatim>\<open>outcomes\<close> array still throws when the statement is
  the number 42 (\<^verbatim>\<open>truncatedText.split\<close> is not a function), when an outcome has no
  \<^verbatim>\<open>outputs\<close> array, and when an output has no \<^verbatim>\<open>statement\<close>; \<^verbatim>\<open>isValidData\<close>
  accepts the first and the last of these. And a snapshot without \<^verbatim>\<open>impact\<close> whose
  outcome has no \<^verbatim>\<open>outputs\<close> fails inside the loop that collects the outputs, not
  before it.
\<close>

theorem never_raises_counterexample:
  "\<not> malformed js_numberStatement \<and> isValidData js_numberStatement = Inr True
   \<and> generateSVGVisualization_js js_numberStatement = Inl (TypeError ''createNode: text'')
   \<and> \<not> malformed js_noOutputsField
   \<and> generateSVGVisualization_js js_noOutputsField = Inl (TypeError ''outcome.outputs.forEach'')
   \<and> \<not> malformed js_noOutputStatement \<and> isValidData js_noOutputStatement = Inr True
   \<and> generateSVGVisualization_js js_noOutputStatement = Inl (TypeError ''output.statement.trim'')
   \<and> malformed js_noImpactNoOutputs
   \<and> generateSVGVisualization_js js_noImpactNoOutputs = Inl (TypeError ''outcome.outputs.forEach'')"
  by code_simp

section \<open>The scene without outcomes\<close>

lemma uniqueOutputs_Nil: "uniqueOutputs [] = []"
  by (simp add: uniqueOutputs_def collectOutputs_def)

text \<open>
  C8. For a snapshot without outcomes the generator does not throw; the element has
  the title, the description, the marker definitions and the impact group as its only
  children, so the scene has exactly one box and no connector. The width is the
  formula's value for \<open>max(0, 0, 1) = 1\<close>, which is 1200, and the height is 580.
\<close>

theorem empty_scenario:
  assumes "data_outcomes data = []"
  shows "generateSVGVisualization_js (toJS data) = Inr (generateSVGVisualization data)
    \<and> svg_children (generateSVGVisualization data)
        = [Title titleText,
           Desc ''Visualization showing 0 outcomes supporting the impact statement, with 0 unique outputs.'',
           Defs, Group (impactNode 1200 (impact_statement (data_impact data)))]
    \<and> nodesOf (svg_children (generateSVGVisualization data))
        = [impactNode 1200 (impact_statement (data_impact data))]
    \<and> pathsOf (svg_children (generateSVGVisualization data)) = []
    \<and> svg_width (generateSVGVisualization data) = max 1200 (of_nat (max (max 0 0) 1) * (200 + 40) + 2 * 20)
    \<and> svg_width (generateSVGVisualization data) = 1200
    \<and> svg_height (generateSVGVisualization data) = 3 * 180 + 2 * 20"
proof -
  have tw: "totalWidth 0 0 = 1200" by (simp add: totalWidth_eq)
  have d: "descText 0 0 = ''Visualization showing 0 outcomes supporting the impact statement, with 0 unique outputs.''"
    by (simp add: descText_def string_of_nat.simps digitChar_def)
  have ch: "svg_children (generateSVGVisualization data)
        = [Title titleText, Desc (descText 0 0), Defs,
           Group (impactNode 1200 (impact_statement (data_impact data)))]"
    by (simp add: svg_children_closed assms uniqueOutputs_Nil tw sharedConnections_def
        impactConnections_def outcomeBoxes_def outputBoxes_def)
  show ?thesis
    by (simp add: generate_js_total ch d svg_width_eq svg_height_eq assms uniqueOutputs_Nil tw)
qed

theorem empty_scenario_witness:
  "data_outcomes noOutcomes = []
   \<and> generateSVGVisualization_js (toJS noOutcomes) = Inr (generateSVGVisualization noOutcomes)
   \<and> nodesOf (svg_children (generateSVGVisualization noOutcomes)) = [impactNode 1200 ''X'']
   \<and> pathsOf (svg_children (generateSVGVisualization noOutcomes)) = []"
proof -
  have h: "data_outcomes noOutcomes = []" "impact_statement (data_impact noOutcomes) = ''X''"
    by (simp_all add: noOutcomes_def)
  show ?thesis
    using h empty_scenario [of noOutcomes] by simp
qed

section \<open>The collected outputs as a regrouping\<close>

lemma firstSeen_snoc:
  "firstSeen (xs @ [k]) = (if k \<in> set xs then firstSeen xs else firstSeen xs @ [k])"
  by (simp add: firstSeen_def)

lemma set_firstSeen [simp]: "set (firstSeen xs) = set xs"
  by (simp add: firstSeen_def)

lemma distinct_firstSeen [simp]: "distinct (firstSeen xs)"
  by (simp add: firstSeen_def)

lemma pushOutcomeId_keyed:
  "distinct ks \<Longrightarrow>
   pushOutcomeId key oid (map (\<lambda>k. (k, g k)) ks)
   = map (\<lambda>k. (k, if k = key then (g k)\<lparr>od_outcomeIds := od_outcomeIds (g k) @ [oid]\<rparr> else g k)) ks"
  by (induction ks) auto

lemma groupOf_snoc_other:
  "occKey p \<noteq> k \<Longrightarrow> groupOf (occs @ [p]) k = groupOf occs k"
  by (simp add: groupOf_def)

lemma groupOf_snoc_same:
  "occKey p \<in> set (map occKey occs) \<Longrightarrow>
   groupOf (occs @ [p]) (occKey p)
   = (groupOf occs (occKey p))\<lparr>od_outcomeIds := od_outcomeIds (groupOf occs (occKey p)) @ [fst p]\<rparr>"
proof -
  assume "occKey p \<in> set (map occKey occs)"
  then have "filter (\<lambda>q. occKey q = occKey p) occs \<noteq> []"
    by (auto simp: filter_empty_conv)
  then show ?thesis by (simp add: groupOf_def)
qed

lemma groupOf_snoc_new:
  assumes "occKey p \<notin> set (map occKey occs)"
  shows "groupOf (occs @ [p]) (occKey p) = \<lparr>od_output = snd p, od_outcomeIds = [fst p]\<rparr>"
proof -
  have "occKey q \<noteq> occKey p" if "q \<in> set occs" for q
    using that assms by (metis imageI set_map)
  then have "filter (\<lambda>q. occKey q = occKey p) occs = []"
    by (simp add: filter_empty_conv)
  then show ?thesis by (simp add: groupOf_def)
qed

lemma registerOutput_grouped:
  "registerOutput (occKey p) (fst p) (snd p) (grouped occs) = grouped (occs @ [p])"
proof (cases "occKey p \<in> set (map occKey occs)")
  case True
  have has: "map_has (occKey p) (grouped occs)"
    using True by (simp add: map_has_def grouped_def comp_def)
  have "pushOutcomeId (occKey p) (fst p) (grouped occs)
        = map (\<lambda>k. (k, groupOf (occs @ [p]) k)) (firstSeen (map occKey occs))"
    unfolding grouped_def
    by (subst pushOutcomeId_keyed)
       (auto simp: groupOf_snoc_same [OF True] groupOf_snoc_other)
  then show ?thesis
    using True has by (simp add: registerOutput_def grouped_def firstSeen_snoc)
next
  case False
  have has: "\<not> map_has (occKey p) (grouped occs)"
    using False by (simp add: map_has_def grouped_def comp_def)
  have "groupOf (occs @ [p]) k = groupOf occs k" if "k \<in> set (firstSeen (map occKey occs))" for k
  proof -
    from that False have "occKey p \<noteq> k" by auto
    then show ?thesis by (rule groupOf_snoc_other)
  qed
  then have "map (\<lambda>k. (k, groupOf (occs @ [p]) k)) (firstSeen (map occKey occs))
        = map (\<lambda>k. (k, groupOf occs k)) (firstSeen (map occKey occs))"
    by (intro map_cong refl) simp
  then show ?thesis
    using False has
    by (simp add: registerOutput_def grouped_def firstSeen_snoc groupOf_snoc_new [OF False])
qed

lemma collect_occurrences:
  "fold collectOutcome ocs m
   = fold (\<lambda>p. registerOutput (occKey p) (fst p) (snd p)) (occurrences ocs) m"
proof (induction ocs arbitrary: m)
  case Nil
  then show ?case by (simp add: occurrences_def)
next
  case (Cons oc ocs)
  have "collectOutcome oc m
        = fold (\<lambda>p. registerOutput (occKey p) (fst p) (snd p))
            (map (\<lambda>out. (outcome_id oc, out)) (outcome_outputs oc)) m"
    by (simp add: collectOutcome_def fold_map comp_def occKey_def)
  then show ?case
    using Cons.IH by (simp add: occurrences_def)
qed

lemma fold_register_grouped:
  "fold (\<lambda>p. registerOutput (occKey p) (fst p) (snd p)) occs [] = grouped occs"
proof (induction occs rule: rev_induct)
  case Nil
  then show ?case by (simp add: grouped_def firstSeen_def)
next
  case (snoc p occs)
  then show ?case by (simp add: registerOutput_grouped)
qed

text \<open>
  What holds of the collected outputs for every snapshot: there is one entry per
  distinct key, in the order of first occurrence; its output is the first occurrence and
  its \<^verbatim>\<open>outcomeIds\<close> holds the outcome id of every occurrence of the key, in order,
  so once per occurrence and not once per outcome.
\<close>

lemma collectOutputs_grouped: "collectOutputs ocs = grouped (occurrences ocs)"
  by (simp add: collectOutputs_def collect_occurrences fold_register_grouped)

lemma uniqueOutputs_grouped:
  "uniqueOutputs ocs
   = map (groupOf (occurrences ocs)) (firstSeen (map occKey (occurrences ocs)))"
  by (simp add: uniqueOutputs_def collectOutputs_grouped grouped_def comp_def)

lemma collectOutputs_keys:
  "map fst (collectOutputs ocs) = firstSeen (map occKey (occurrences ocs))"
  "distinct (map fst (collectOutputs ocs))"
  by (simp_all add: collectOutputs_grouped grouped_def comp_def)

lemma fst_occurrences: "p \<in> set (occurrences ocs) \<Longrightarrow> fst p \<in> set (map outcome_id ocs)"
  by (auto simp: occurrences_def)

lemma uniqueOutputs_ids:
  assumes "od \<in> set (uniqueOutputs ocs)"
  shows "set (od_outcomeIds od) \<subseteq> set (map outcome_id ocs)"
proof -
  obtain k where "od = groupOf (occurrences ocs) k"
    using assms by (auto simp: uniqueOutputs_grouped)
  then show ?thesis
    using fst_occurrences [of _ ocs] by (auto simp: groupOf_def)
qed

section \<open>Connectors into a shared output\<close>

lemma map_filter_all_Some:
  "(\<And>x. x \<in> set xs \<Longrightarrow> f x \<noteq> None) \<Longrightarrow> length (List.map_filter f xs) = length xs"
  by (induction xs) (auto simp: List.map_filter_simps split: option.splits)

lemma on_id_outcomeAnchors: "map on_id (outcomeAnchors tw ocs) = map outcome_id ocs"
proof -
  have "map on_id (map (\<lambda>(i, oc). outcomeAnchor sp i (outcome_id oc) (outcome_statement oc)
                              (length (outcome_indicators oc))) (enumerate k ocs))
        = map outcome_id ocs" for sp k
    by (induction ocs arbitrary: k) (simp_all add: outcomeAnchor_def)
  then show ?thesis by (simp add: outcomeAnchors_def)
qed

lemma find_outcomeAnchor:
  assumes "oid \<in> set (map outcome_id ocs)"
  shows "find (\<lambda>n. on_id n = oid) (outcomeAnchors tw ocs) \<noteq> None"
proof -
  have "oid \<in> set (map on_id (outcomeAnchors tw ocs))"
    using assms by (simp only: on_id_outcomeAnchors)
  then show ?thesis by (auto simp: find_None_iff)
qed

lemma length_outputConnections:
  assumes "set ids \<subseteq> set (map outcome_id ocs)"
  shows "length (outputConnections (outcomeAnchors tw ocs) sp i ids) = length ids"
  unfolding outputConnections_def
  using assms find_outcomeAnchor [of _ ocs tw]
  by (intro map_filter_all_Some) auto

lemma outputConnections_end:
  "c \<in> set (outputConnections ons sp i ids) \<Longrightarrow>
   conn_x2 c = outputX sp i + itemWidth / 2 \<and> conn_y2 c = outputsY
   \<and> conn_isShared c = (length ids > 1)"
  by (auto simp: outputConnections_def List.map_filter_def createConnection_def conn_isShared_def
      split: if_splits)

lemma targets_outputNode:
  fixes ids ids' :: "string list"
  assumes "sp \<noteq> 0" and "c \<in> set (outputConnections ons sp i ids)"
  shows "targets c (outputNode sp j st n ids') = (i = j)"
  using outputConnections_end [OF assms(2)] assms(1)
  by (auto simp: targets_def outputNode_def createNode_geometry outputX_def)

lemma impactConnection_not_output:
  "c \<in> set (impactConnections tw ocs) \<Longrightarrow> \<not> targets c (outputNode sp j st n (ids :: string list))"
  by (auto simp: impactConnections_def impactConnection_def createConnection_def targets_def
      outputNode_def createNode_geometry outcomesY_def outputsY_def config_defs)

lemma filter_shared_below:
  fixes ids' :: "string list" and uos :: "(string, 'o) outputData list"
  assumes "sp \<noteq> 0" and "j < k"
  shows "filter (\<lambda>c. targets c (outputNode sp j st n ids'))
           (concat (map (\<lambda>(i, od). outputConnections ons sp i (od_outcomeIds od)) (enumerate k uos)))
         = []"
  using assms(2)
proof (induction uos arbitrary: k)
  case Nil
  then show ?case by simp
next
  case (Cons od uos)
  have "filter (\<lambda>c. targets c (outputNode sp j st n ids')) (outputConnections ons sp k (od_outcomeIds od)) = []"
    using Cons.prems targets_outputNode [OF assms(1)] by (auto simp: filter_empty_conv)
  then show ?case using Cons.IH [of "Suc k"] Cons.prems by simp
qed

lemma filter_shared_at:
  fixes ids' :: "string list" and uos :: "(string, 'o) outputData list"
  assumes "sp \<noteq> 0" and "k \<le> j" and "j < k + length uos"
  shows "filter (\<lambda>c. targets c (outputNode sp j st n ids'))
           (concat (map (\<lambda>(i, od). outputConnections ons sp i (od_outcomeIds od)) (enumerate k uos)))
         = outputConnections ons sp j (od_outcomeIds (uos ! (j - k)))"
  using assms(2,3)
proof (induction uos arbitrary: k)
  case Nil
  then show ?case by simp
next
  case (Cons od uos)
  show ?case
  proof (cases "j = k")
    case True
    have "filter (\<lambda>c. targets c (outputNode sp j st n ids')) (outputConnections ons sp k (od_outcomeIds od))
          = outputConnections ons sp k (od_outcomeIds od)"
      using True targets_outputNode [OF assms(1)] by (auto simp: filter_id_conv)
    then show ?thesis
      using True filter_shared_below [OF assms(1), of j "Suc k"] by simp
  next
    case False
    have "filter (\<lambda>c. targets c (outputNode sp j st n ids')) (outputConnections ons sp k (od_outcomeIds od)) = []"
      using False targets_outputNode [OF assms(1)] by (auto simp: filter_empty_conv)
    moreover have "uos ! (j - Suc k) = (od # uos) ! (j - k)"
      using False Cons.prems by (simp add: nth_Cons')
    ultimately show ?thesis
      using Cons.IH [of "Suc k"] False Cons.prems by simp
  qed
qed

text \<open>For every snapshot and every output box: the box is drawn as shared exactly when its
  \<^verbatim>\<open>outcomeIds\<close> has more than one entry, and the number of connectors that end at
  the box is the number of entries of \<^verbatim>\<open>outcomeIds\<close>.\<close>

lemma connectors_per_output:
  fixes data :: snapshot
  defines "ocs \<equiv> data_outcomes data"
  defines "uos \<equiv> uniqueOutputs (data_outcomes data)"
  defines "ch \<equiv> svg_children (generateSVGVisualization data)"
  assumes j: "j < length uos"
  shows "node_isShared (nodesOf ch ! (1 + length ocs + j)) = (length (od_outcomeIds (uos ! j)) > 1)"
    and "length (filter (\<lambda>c. targets c (nodesOf ch ! (1 + length ocs + j))) (pathsOf ch))
         = length (od_outcomeIds (uos ! j))"
proof -
  let ?tw = "totalWidth (length ocs) (length uos)"
  let ?sp = "outputSpacing ?tw uos"
  let ?box = "outputNode ?sp j (output_statement (od_output (uos ! j)))
                (length (output_indicators (od_output (uos ! j)))) (od_outcomeIds (uos ! j))"
  have "200 < ?sp"
    unfolding outputSpacing_def by (rule spacing_gt) simp
  then have sp: "?sp \<noteq> 0" by simp
  have box: "nodesOf ch ! Suc (length ocs + j) = ?box"
    using j by (simp add: ch_def nodesOf_children Let_def ocs_def uos_def nth_append outputBoxes_nth)
  show "node_isShared (nodesOf ch ! (1 + length ocs + j)) = (length (od_outcomeIds (uos ! j)) > 1)"
    by (simp add: box node_isShared_def outputNode_def createNode_geometry)
  have paths: "pathsOf ch = rev (concat (sharedConnections ?tw (outcomeAnchors ?tw ocs) uos))
                 @ impactConnections ?tw ocs"
    by (simp add: ch_def pathsOf_children Let_def ocs_def uos_def)
  have imp: "filter (\<lambda>c. targets c ?box) (impactConnections ?tw ocs) = []"
    using impactConnection_not_output by (auto simp: filter_empty_conv)
  have sh: "filter (\<lambda>c. targets c ?box) (concat (sharedConnections ?tw (outcomeAnchors ?tw ocs) uos))
            = outputConnections (outcomeAnchors ?tw ocs) ?sp j (od_outcomeIds (uos ! j))"
    using filter_shared_at [OF sp, of 0 j uos _ _ _ "outcomeAnchors ?tw ocs"] j
    by (simp add: sharedConnections_def)
  have ids: "set (od_outcomeIds (uos ! j)) \<subseteq> set (map outcome_id ocs)"
    using uniqueOutputs_ids [of "uos ! j" ocs] j by (simp add: uos_def ocs_def)
  show "length (filter (\<lambda>c. targets c (nodesOf ch ! (1 + length ocs + j))) (pathsOf ch))
         = length (od_outcomeIds (uos ! j))"
    by (simp add: box paths imp sh rev_filter [symmetric] length_outputConnections [OF ids]
        del: rev_filter)
qed

text \<open>The scenario of the specification: two unique outputs, the first with the outcome ids
  A and B and drawn as shared, and three connectors from outcome boxes to output boxes,
  two of them into the shared box.\<close>

lemma scenario_scene:
  "map od_outcomeIds (uniqueOutputs (data_outcomes scenario)) = [[''A'', ''B''], [''A'']]
   \<and> map fst (collectOutputs (data_outcomes scenario)) = [''shared thing'', ''only a'']
   \<and> map node_isShared (nodesOf (svg_children (generateSVGVisualization scenario)))
       = [False, False, False, True, False]
   \<and> length (filter (\<lambda>c. conn_y2 c = outputsY)
               (pathsOf (svg_children (generateSVGVisualization scenario)))) = 3
   \<and> length (filter (\<lambda>c. targets c (nodesOf (svg_children (generateSVGVisualization scenario)) ! 3))
               (pathsOf (svg_children (generateSVGVisualization scenario)))) = 2
   \<and> length (filter (\<lambda>c. targets c (nodesOf (svg_children (generateSVGVisualization scenario)) ! 4))
               (pathsOf (svg_children (generateSVGVisualization scenario)))) = 1"
  by code_simp

text \<open>
  C2 at the snapshot whose single outcome lists \<^verbatim>\<open>Publish guide\<close> twice: the scene
  has one output box, labelled as shared across 2 outcomes and drawn as shared, and two
  connectors end at it, although only one outcome contributes the statement.
\<close>

theorem twice_in_one_scene:
  "map (\<lambda>n. text_content (node_label n)) (nodesOf (svg_children (generateSVGVisualization twiceInOne)))
     = [''Impact'', ''Outcome'', ''Output (shared across 2 outcomes)'']
   \<and> node_isShared (nodesOf (svg_children (generateSVGVisualization twiceInOne)) ! 2)
   \<and> length (filter (\<lambda>c. targets c (nodesOf (svg_children (generateSVGVisualization twiceInOne)) ! 2))
        (pathsOf (svg_children (generateSVGVisualization twiceInOne)))) = 2
   \<and> length (contributingOutcomes ''publish guide'' (data_outcomes twiceInOne)) = 1
   \<and> length (data_outcomes twiceInOne) = 1"
  by code_simp

section \<open>The text fitter on every text\<close>

lemma joinSpace_snoc: "run \<noteq> [] \<Longrightarrow> joinSpace (run @ [w]) = joinSpace run @ '' '' @ w"
  by (induction run rule: joinSpace.induct) simp_all

lemma wholeWords_Nil: "wholeWords ws []"
  unfolding wholeWords_def by (intro conjI exI [of _ "[]"]) simp_all

lemma wholeWords_word: "w \<in> set ws \<Longrightarrow> wholeWords ws w"
  unfolding wholeWords_def by (intro conjI exI [of _ "[w]"]) simp_all

lemma wholeWords_join:
  assumes "wholeWords ws cur" and "w \<in> set ws" and "length (cur @ w) \<le> maxCharsPerLine"
  shows "wholeWords ws (cur @ (if cur \<noteq> [] then '' '' else []) @ w)"
proof (cases "cur = []")
  case True
  then show ?thesis using assms(2) by (simp add: wholeWords_word)
next
  case False
  obtain run where run: "cur = joinSpace run" "set run \<subseteq> set ws"
    using assms(1) by (auto simp: wholeWords_def)
  then have "run \<noteq> []" using False by auto
  then have "cur @ '' '' @ w = joinSpace (run @ [w])"
    using run(1) by (simp add: joinSpace_snoc)
  moreover have "set (run @ [w]) \<subseteq> set ws" using run(2) assms(2) by simp
  moreover have "length (cur @ '' '' @ w) \<le> 31"
    using assms(3) by (simp add: maxCharsPerLine_def)
  ultimately have "wholeWords ws (cur @ '' '' @ w)"
    unfolding wholeWords_def by blast
  then show ?thesis using False by simp
qed

lemma wrapStep_inv:
  assumes "w \<in> set ws" and "\<forall>l \<in> set lines. l \<noteq> [] \<and> wholeWords ws l" and "wholeWords ws cur"
    and "wrapStep w (lines, cur) = (lines', cur')"
  shows "(\<forall>l \<in> set lines'. l \<noteq> [] \<and> wholeWords ws l) \<and> wholeWords ws cur'"
proof (cases "length (cur @ w) \<le> maxCharsPerLine")
  case True
  then have "lines' = lines" "cur' = cur @ (if cur \<noteq> [] then '' '' else []) @ w"
    using assms(4) by (simp_all add: wrapStep_def)
  then show ?thesis
    using assms(1,2,3) wholeWords_join [OF assms(3) assms(1) True] by simp
next
  case False
  then have "lines' = (if cur \<noteq> [] then lines @ [cur] else lines)" "cur' = w"
    using assms(4) by (simp_all add: wrapStep_def)
  then show ?thesis
    using assms(1,2,3) by (simp add: wholeWords_word)
qed

lemma fold_wrapStep_inv:
  assumes "set words \<subseteq> set ws" and "\<forall>l \<in> set lines. l \<noteq> [] \<and> wholeWords ws l"
    and "wholeWords ws cur" and "fold wrapStep words (lines, cur) = (lines', cur')"
  shows "(\<forall>l \<in> set lines'. l \<noteq> [] \<and> wholeWords ws l) \<and> wholeWords ws cur'"
  using assms
proof (induction words arbitrary: lines cur)
  case Nil
  then show ?case by simp
next
  case (Cons w words)
  obtain lines1 cur1 where step: "wrapStep w (lines, cur) = (lines1, cur1)"
    by (cases "wrapStep w (lines, cur)") blast
  have w: "w \<in> set ws" using Cons.prems(1) by simp
  have inv: "(\<forall>l \<in> set lines1. l \<noteq> [] \<and> wholeWords ws l) \<and> wholeWords ws cur1"
    using wrapStep_inv [OF w Cons.prems(2) Cons.prems(3) step] .
  show ?case
    using Cons.IH [of lines1 cur1] Cons.prems(1,4) inv step by simp
qed

lemma wrapLines_whole_words:
  assumes "l \<in> set (wrapLines ws)"
  shows "l \<noteq> [] \<and> (\<exists>run. l = joinSpace run \<and> set run \<subseteq> set ws)
         \<and> (length l \<le> 31 \<or> l \<in> set ws)"
proof -
  obtain lines cur where f: "fold wrapStep ws ([], []) = (lines, cur)"
    by (cases "fold wrapStep ws ([], [])") blast
  have inv: "(\<forall>l \<in> set lines. l \<noteq> [] \<and> wholeWords ws l) \<and> wholeWords ws cur"
    using fold_wrapStep_inv [OF subset_refl _ wholeWords_Nil f] by simp
  have "l \<in> set lines \<or> (l = cur \<and> cur \<noteq> [])"
    using assms f by (auto simp: wrapLines_def split: if_splits)
  then have "l \<noteq> [] \<and> wholeWords ws l" using inv by auto
  then show ?thesis by (simp add: wholeWords_def)
qed

text \<open>
  What holds of the text fitter for every text: the tooltip is the untruncated text; at
  most two lines are displayed; every displayed line is non-empty and consists of whole
  words of the (possibly truncated) text joined by single spaces; and a line of more
  than 31 code units is a single word. The bound is 31, not 30.
\<close>

lemma text_fitter_general:
  "rect_title (createNode x y w h text color label n sh) = text"
  "length (displayLines text) \<le> 2"
  "map text_content (node_lines (createNode x y w h text color label n sh))
     = map (\<lambda>(i, line). lineContent (textLines text) i line) (enumerate 0 (displayLines text))"
  "l \<in> set (displayLines text) \<Longrightarrow>
     l \<noteq> [] \<and> (\<exists>run. l = joinSpace run \<and> set run \<subseteq> set (splitSpace (truncatedText text)))
     \<and> (length l \<le> 31 \<or> l \<in> set (splitSpace (truncatedText text)))"
proof -
  show "rect_title (createNode x y w h text color label n sh) = text"
    by (simp add: createNode_def Let_def)
  show "length (displayLines text) \<le> 2"
    by (simp add: displayLines_def maxLines_def)
  show "map text_content (node_lines (createNode x y w h text color label n sh))
     = map (\<lambda>(i, line). lineContent (textLines text) i line) (enumerate 0 (displayLines text))"
    by (simp add: createNode_def Let_def displayLines_def comp_def case_prod_unfold)
  assume "l \<in> set (displayLines text)"
  then have "l \<in> set (wrapLines (splitSpace (truncatedText text)))"
    by (auto simp: displayLines_def textLines_def dest: in_set_takeD)
  then show "l \<noteq> [] \<and> (\<exists>run. l = joinSpace run \<and> set run \<subseteq> set (splitSpace (truncatedText text)))
     \<and> (length l \<le> 31 \<or> l \<in> set (splitSpace (truncatedText text)))"
    by (rule wrapLines_whole_words)
qed

end
